theory Spec2Isabelle
  imports Complex_Main "HOL-Library.Sublist"
begin

section \<open>The JavaScript values the program computes with\<close>

text \<open>
  \<^verbatim>\<open>planning.js\<close> works on arrays of strings read from CSV files and on the numbers that
  \<^verbatim>\<open>parseInt\<close> and \<^verbatim>\<open>parseFloat\<close> make of them. A JavaScript string is modelled by the
  list of its UTF-16 code units, each below 256 (the Latin-1 range, which holds every
  character the program names, the pound sign U+00A3 included). A value that is either a
  string or \<^verbatim>\<open>undefined\<close> (an array read past its end) is a \<open>string option\<close>.
\<close>

subsection \<open>Numbers: IEEE 754 binary64\<close>

text \<open>
  A JavaScript number is a binary64 value: NaN, an infinity, or a finite double, kept here
  as the rational it denotes. The two zeros are one value \<open>Fin 0\<close>: the program never
  divides by a computed number, and comparison, \<^verbatim>\<open>toFixed\<close> and string conversion give the
  same result for \<^verbatim>\<open>-0\<close> and \<^verbatim>\<open>+0\<close>.
\<close>

datatype jsnum = NaN | PInf | NInf | Fin rat

text \<open>
  Rounding of a positive rational to the nearest double, ties to even. The binary exponent
  \<open>e\<close> of \<open>a\<close> satisfies \<open>2 ^ e \<le> a < 2 ^ (e + 1)\<close>, bounded below by the exponent
  of the subnormals and above by the first exponent that overflows; the result is the
  multiple of \<open>2 ^ (e - 52)\<close> nearest to \<open>a\<close>.
\<close>

function expoUp :: "int \<Rightarrow> rat \<Rightarrow> int" where
  "expoUp e a = (if a < 2 \<or> 1024 \<le> e then e else expoUp (e + 1) (a / 2))"
  by pat_completeness auto
termination
  by (relation "measure (\<lambda>(e, a). nat (1024 - e))") auto

function expoDown :: "int \<Rightarrow> rat \<Rightarrow> int" where
  "expoDown e a = (if 1 \<le> a \<or> e \<le> - 1022 then e else expoDown (e - 1) (2 * a))"
  by pat_completeness auto
termination
  by (relation "measure (\<lambda>(e, a). nat (e + 1022))") auto

declare expoUp.simps [simp del] expoDown.simps [simp del]

definition exponent :: "rat \<Rightarrow> int" where
  "exponent a = (if 1 \<le> a then expoUp 0 a else expoDown 0 a)"

definition roundHalfEven :: "rat \<Rightarrow> int" where
  "roundHalfEven x =
     (let f = \<lfloor>x\<rfloor>; r = x - of_int f
      in if r < 1 / 2 then f else if 1 / 2 < r then f + 1 else if even f then f else f + 1)"

definition roundedPos :: "rat \<Rightarrow> rat" where
  "roundedPos a =
     (let q = 2 powi (exponent a - 52) in of_int (roundHalfEven (a / q)) * q)"

definition roundPos :: "rat \<Rightarrow> jsnum" where
  "roundPos a = (let r = roundedPos a in if 2 ^ 1024 \<le> r then PInf else Fin r)"

definition js_neg :: "jsnum \<Rightarrow> jsnum" where
  "js_neg x = (case x of NaN \<Rightarrow> NaN | PInf \<Rightarrow> NInf | NInf \<Rightarrow> PInf | Fin r \<Rightarrow> Fin (- r))"

definition round64 :: "rat \<Rightarrow> jsnum" where
  "round64 x = (if x = 0 then Fin 0 else if 0 < x then roundPos x else js_neg (roundPos (- x)))"

text \<open>The operators \<^verbatim>\<open>+\<close>, \<^verbatim>\<open>-\<close>, \<^verbatim>\<open>*\<close>, \<^verbatim>\<open>/ 100\<close> and \<^verbatim>\<open>>\<close> on numbers.\<close>

fun js_add :: "jsnum \<Rightarrow> jsnum \<Rightarrow> jsnum" where
  "js_add NaN y = NaN"
| "js_add x NaN = NaN"
| "js_add PInf NInf = NaN"
| "js_add NInf PInf = NaN"
| "js_add PInf y = PInf"
| "js_add NInf y = NInf"
| "js_add (Fin a) PInf = PInf"
| "js_add (Fin a) NInf = NInf"
| "js_add (Fin a) (Fin b) = round64 (a + b)"

definition js_sub :: "jsnum \<Rightarrow> jsnum \<Rightarrow> jsnum" where
  "js_sub x y = js_add x (js_neg y)"

definition signOf :: "jsnum \<Rightarrow> int" where
  "signOf x =
     (case x of
        NaN \<Rightarrow> 0 | PInf \<Rightarrow> 1 | NInf \<Rightarrow> - 1
      | Fin r \<Rightarrow> if r < 0 then - 1 else if r = 0 then 0 else 1)"

fun js_mul :: "jsnum \<Rightarrow> jsnum \<Rightarrow> jsnum" where
  "js_mul NaN y = NaN"
| "js_mul x NaN = NaN"
| "js_mul (Fin a) (Fin b) = round64 (a * b)"
| "js_mul x y =
     (if signOf x * signOf y = 0 then NaN else if 0 < signOf x * signOf y then PInf else NInf)"

definition js_div100 :: "jsnum \<Rightarrow> jsnum" where
  "js_div100 x = (case x of Fin a \<Rightarrow> round64 (a / 100) | _ \<Rightarrow> x)"

fun js_gt :: "jsnum \<Rightarrow> jsnum \<Rightarrow> bool" where
  "js_gt NaN y = False"
| "js_gt x NaN = False"
| "js_gt PInf y = (y \<noteq> PInf)"
| "js_gt NInf y = False"
| "js_gt (Fin a) PInf = False"
| "js_gt (Fin a) NInf = True"
| "js_gt (Fin a) (Fin b) = (b < a)"

subsection \<open>Strings\<close>

text \<open>
  The white space that \<^verbatim>\<open>String.prototype.trim\<close>, \<^verbatim>\<open>parseInt\<close> and \<^verbatim>\<open>parseFloat\<close> skip
  (ECMAScript WhiteSpace and LineTerminator), within the Latin-1 range: TAB, LF, VT, FF,
  CR, SP and NBSP.
\<close>

definition isWhiteSpace :: "char \<Rightarrow> bool" where
  "isWhiteSpace c \<longleftrightarrow>
     c \<in> set [CHR 0x09, CHR 0x0A, CHR 0x0B, CHR 0x0C, CHR 0x0D, CHR 0x20, CHR 0xA0]"

definition trimStart :: "string \<Rightarrow> string" where
  "trimStart s = dropWhile isWhiteSpace s"

definition trim :: "string \<Rightarrow> string" where
  "trim s = rev (dropWhile isWhiteSpace (rev (dropWhile isWhiteSpace s)))"

text \<open>
  \<^verbatim>\<open>s.split(sep)\<close> for a string separator: the pieces of \<open>s\<close> between the occurrences of
  \<open>sep\<close>, found from the left without overlap; an empty separator splits \<open>s\<close> into its
  code units.
\<close>

fun splitAux :: "string \<Rightarrow> string \<Rightarrow> string \<Rightarrow> string list" where
  "splitAux sep cur [] = [rev cur]"
| "splitAux sep cur (c # cs) =
     (if prefix sep (c # cs) then rev cur # splitAux sep [] (drop (length sep - 1) cs)
      else splitAux sep (c # cur) cs)"

definition split :: "string \<Rightarrow> string \<Rightarrow> string list" where
  "split sep s = (if sep = [] then map (\<lambda>c. [c]) s else splitAux sep [] s)"

text \<open>\<^verbatim>\<open>a.join(sep)\<close> on an array of strings.\<close>

fun join :: "string \<Rightarrow> string list \<Rightarrow> string" where
  "join sep [] = []"
| "join sep [x] = x"
| "join sep (x # y # ys) = x @ sep @ join sep (y # ys)"

text \<open>\<^verbatim>\<open>a[i]\<close>: the element, or \<^verbatim>\<open>undefined\<close> past the end of the array.\<close>

definition elemAt :: "'a list \<Rightarrow> nat \<Rightarrow> 'a option" where
  "elemAt xs i = (if i < length xs then Some (xs ! i) else None)"

text \<open>The string conversion that \<^verbatim>\<open>parseInt\<close> and \<^verbatim>\<open>parseFloat\<close> apply to their argument.\<close>

definition ToString :: "string option \<Rightarrow> string" where
  "ToString v = (case v of None \<Rightarrow> ''undefined'' | Some s \<Rightarrow> s)"

subsection \<open>\<^verbatim>\<open>parseInt\<close> and \<^verbatim>\<open>parseFloat\<close>\<close>

definition digitValue :: "char \<Rightarrow> int option" where
  "digitValue c =
     (let n = of_char c :: int
      in if 48 \<le> n \<and> n \<le> 57 then Some (n - 48)
         else if 97 \<le> n \<and> n \<le> 102 then Some (n - 87)
         else if 65 \<le> n \<and> n \<le> 70 then Some (n - 55)
         else None)"

definition isRadixDigit :: "int \<Rightarrow> char \<Rightarrow> bool" where
  "isRadixDigit R c = (case digitValue c of None \<Rightarrow> False | Some d \<Rightarrow> d < R)"

definition radixValue :: "int \<Rightarrow> string \<Rightarrow> int" where
  "radixValue R ds =
     foldl (\<lambda>acc c. case digitValue c of None \<Rightarrow> acc | Some d \<Rightarrow> R * acc + d) 0 ds"

text \<open>An optional sign at the head of a numeric literal: whether it is \<^verbatim>\<open>-\<close>, and the rest.\<close>

definition takeSign :: "string \<Rightarrow> bool \<times> string" where
  "takeSign s =
     (case s of
        [] \<Rightarrow> (False, s)
      | c # r \<Rightarrow> if c = CHR ''-'' then (True, r) else if c = CHR ''+'' then (False, r)
                 else (False, s))"

text \<open>
  \<^verbatim>\<open>parseInt(v)\<close> with no radix: leading white space and a sign are skipped, a prefix
  \<^verbatim>\<open>0x\<close> or \<^verbatim>\<open>0X\<close> selects radix 16, the longest run of digits is read, and the integer
  is rounded to a double; NaN when there is no digit.
\<close>

definition parseInt :: "string option \<Rightarrow> jsnum" where
  "parseInt v =
     (let (neg, u) = takeSign (trimStart (ToString v));
          (R, z) = (case u of
                      c # x # r \<Rightarrow>
                        if c = CHR ''0'' \<and> (x = CHR ''x'' \<or> x = CHR ''X'') then (16, r)
                        else (10, u)
                    | _ \<Rightarrow> (10, u));
          Z = takeWhile (isRadixDigit R) z
      in if Z = [] then NaN
         else round64 (of_int ((if neg then - 1 else 1) * radixValue R Z)))"

text \<open>
  The exponent part of a decimal literal, \<^verbatim>\<open>e\<close> or \<^verbatim>\<open>E\<close>, an optional sign and at least one
  digit: its value, or 0 when the text is no exponent part.
\<close>

definition exponentPart :: "string \<Rightarrow> int" where
  "exponentPart s =
     (case s of
        [] \<Rightarrow> 0
      | c # r \<Rightarrow>
          if c = CHR ''e'' \<or> c = CHR ''E'' then
            (let (neg, u) = takeSign r; ds = takeWhile (isRadixDigit 10) u
             in if ds = [] then 0 else (if neg then - 1 else 1) * radixValue 10 ds)
          else 0)"

text \<open>
  \<^verbatim>\<open>parseFloat(v)\<close>: leading white space is skipped and the longest prefix that is a decimal
  literal (sign, \<^verbatim>\<open>Infinity\<close>, or digits with an optional fraction and exponent) is read
  and rounded to a double; NaN when no prefix is one.
\<close>

definition parseFloat :: "string option \<Rightarrow> jsnum" where
  "parseFloat v =
     (let (neg, u) = takeSign (trimStart (ToString v))
      in if prefix ''Infinity'' u then (if neg then NInf else PInf)
         else
           let ip = takeWhile (isRadixDigit 10) u;
               r1 = dropWhile (isRadixDigit 10) u;
               (fp, r2) = (case r1 of
                             [] \<Rightarrow> ([], r1)
                           | c # t \<Rightarrow>
                               if c = CHR ''.''
                               then (takeWhile (isRadixDigit 10) t, dropWhile (isRadixDigit 10) t)
                               else ([], r1))
           in if ip = [] \<and> fp = [] then NaN
              else round64 ((if neg then - 1 else 1) * of_int (radixValue 10 (ip @ fp))
                             * 10 powi (exponentPart r2 - int (length fp))))"

subsection \<open>\<^verbatim>\<open>Number.prototype.toFixed(2)\<close>\<close>

text \<open>
  The text of a number. For a finite double of magnitude at least \<open>10 ^ 21\<close>,
  \<^verbatim>\<open>toFixed\<close> gives the exponent notation of \<^verbatim>\<open>Number::toString\<close>; its characters are not
  spelled out here, the value is kept under \<open>Exponential\<close>.
\<close>

datatype numstr = Digits string | Exponential rat

definition digitChar :: "nat \<Rightarrow> char" where
  "digitChar d = ''0123456789'' ! d"

fun decimal :: "nat \<Rightarrow> string" where
  "decimal n = (if n < 10 then [digitChar n] else decimal (n div 10) @ [digitChar (n mod 10)])"

declare decimal.simps [simp del]

text \<open>
  \<^verbatim>\<open>x.toFixed(2)\<close>: the sign is taken first, then the integer \<open>n\<close> nearest to
  \<open>100 * \<bar>x\<bar>\<close> (the larger one on a tie) is written with a point before its last two
  digits, zeros added in front when it has fewer than three.
\<close>

definition toFixed2 :: "jsnum \<Rightarrow> numstr" where
  "toFixed2 x =
     (case x of
        NaN \<Rightarrow> Digits ''NaN''
      | PInf \<Rightarrow> Digits ''Infinity''
      | NInf \<Rightarrow> Digits ''-Infinity''
      | Fin r \<Rightarrow>
          if 10 ^ 21 \<le> \<bar>r\<bar> then Exponential r
          else
            let s = (if r < 0 then ''-'' else []);
                n = nat \<lfloor>\<bar>r\<bar> * 100 + 1 / 2\<rfloor>;
                m = decimal n;
                m = replicate (3 - length m) (CHR ''0'') @ m;
                k = length m
            in Digits (s @ take (k - 2) m @ ''.'' @ drop (k - 2) m))"

section \<open>The program\<close>

subsection \<open>\<^verbatim>\<open>readCsv\<close>\<close>

text \<open>
  The body of the loop \<^verbatim>\<open>for (let i = 1; i < rows.length; i++)\<close>, over the lines that are
  left, with the array \<^verbatim>\<open>data\<close> built so far. \<^verbatim>\<open>row.split('#')[0]\<close> is the head of a split,
  which is never empty.
\<close>

fun readCsvLoop :: "string \<Rightarrow> string list \<Rightarrow> string list list \<Rightarrow> string list list" where
  "readCsvLoop delimiter [] data = data"
| "readCsvLoop delimiter (r # rows) data =
     (let row = trim r;
          row = (if CHR ''#'' \<in> set row then trim (hd (split ''#'' row)) else row)
      in if row \<noteq> [] then readCsvLoop delimiter rows (data @ [split delimiter row])
         else readCsvLoop delimiter rows data)"

text \<open>
  \<^verbatim>\<open>fs.readFileSync\<close> is a parameter: it gives the content of a file, or the message of the
  error it throws. \<^verbatim>\<open>readCsv\<close> returns the rows, or the message of the error it throws in
  turn.
\<close>

definition readCsv ::
  "(string \<Rightarrow> string + string) \<Rightarrow> string \<Rightarrow> string \<Rightarrow> string + string list list" where
  "readCsv readFileSync filename delimiter =
     (case readFileSync filename of
        Inl message \<Rightarrow> Inl (''Error reading file: '' @ message)
      | Inr fileContent \<Rightarrow>
          let rows = split [CHR 0x0A] fileContent
          in Inr (readCsvLoop delimiter (drop 1 rows) []))"

subsection \<open>\<^verbatim>\<open>validateAndCalculateProfit\<close>\<close>

text \<open>
  The errors the function throws, each with the values its message is formatted from:
  \<^verbatim>\<open>Invalid airport code: ...\<close>, \<^verbatim>\<open>Invalid aircraft type: ...\<close>,
  \<^verbatim>\<open>... doesn't have the range to fly to ...\<close>, \<^verbatim>\<open>Too many total seats booked (... > ...)\<close>
  and the three \<^verbatim>\<open>Too many ... seats booked (... > ...)\<close> of the classes. \<open>TypeError\<close> is the
  error of \<^verbatim>\<open>aircraftData[1].replace\<close> on an aircraft row with no second column.
\<close>

datatype error =
    InvalidAirportCode "string option"
  | InvalidAircraftType "string option"
  | TypeError
  | InsufficientRange "string option" "string option"
  | TooManyTotal jsnum jsnum
  | TooManyEconomy "string option" jsnum
  | TooManyBusiness "string option" jsnum
  | TooManyFirst "string option" jsnum

record flightResult =
  flightDetails :: "string list"
  income :: numstr
  cost :: numstr
  profit :: numstr

text \<open>The constants of the function body, each a function of the rows it reads.\<close>

definition distance :: "string list \<Rightarrow> string list \<Rightarrow> jsnum" where
  "distance flight airportData =
     (if elemAt flight 0 = Some ''MAN'' then parseFloat (elemAt airportData 2)
      else parseFloat (elemAt airportData 3))"

definition runningCost :: "string \<Rightarrow> jsnum" where
  "runningCost costFigure = js_div100 (parseFloat (Some (remove1 (CHR 0xA3) costFigure)))"

definition maxRange :: "string list \<Rightarrow> jsnum" where
  "maxRange aircraftData = parseFloat (elemAt aircraftData 2)"

definition economySeatsAvailable :: "string list \<Rightarrow> jsnum" where
  "economySeatsAvailable aircraftData = parseInt (elemAt aircraftData 3)"

definition businessSeatsAvailable :: "string list \<Rightarrow> jsnum" where
  "businessSeatsAvailable aircraftData = parseInt (elemAt aircraftData 4)"

definition firstClassSeatsAvailable :: "string list \<Rightarrow> jsnum" where
  "firstClassSeatsAvailable aircraftData = parseInt (elemAt aircraftData 5)"

definition totalSeats :: "string list \<Rightarrow> jsnum" where
  "totalSeats aircraftData =
     js_add (js_add (economySeatsAvailable aircraftData) (businessSeatsAvailable aircraftData))
       (firstClassSeatsAvailable aircraftData)"

definition totalSeatsBooked :: "string list \<Rightarrow> jsnum" where
  "totalSeatsBooked flight =
     js_add (js_add (parseInt (elemAt flight 3)) (parseInt (elemAt flight 4)))
       (parseInt (elemAt flight 5))"

definition totalIncome :: "string list \<Rightarrow> jsnum" where
  "totalIncome flight =
     js_add
       (js_add (js_mul (parseInt (elemAt flight 3)) (parseFloat (elemAt flight 6)))
          (js_mul (parseInt (elemAt flight 4)) (parseFloat (elemAt flight 7))))
       (js_mul (parseInt (elemAt flight 5)) (parseFloat (elemAt flight 8)))"

definition costPerSeat :: "string \<Rightarrow> string list \<Rightarrow> string list \<Rightarrow> jsnum" where
  "costPerSeat costFigure flight airportData =
     js_mul (runningCost costFigure) (distance flight airportData)"

definition totalCost :: "string \<Rightarrow> string list \<Rightarrow> string list \<Rightarrow> jsnum" where
  "totalCost costFigure flight airportData =
     js_mul (costPerSeat costFigure flight airportData) (totalSeatsBooked flight)"

definition validateAndCalculateProfit ::
  "string list \<Rightarrow> string list list \<Rightarrow> string list list \<Rightarrow> error + flightResult" where
  "validateAndCalculateProfit flight airports aeroplanes =
     (let overseasAirportCode = elemAt flight 1;
          aircraftType = elemAt flight 2;
          econSeats = elemAt flight 3;
          busSeats = elemAt flight 4;
          firstSeats = elemAt flight 5
      in case find (\<lambda>row. elemAt row 0 = overseasAirportCode) airports of
           None \<Rightarrow> Inl (InvalidAirportCode overseasAirportCode)
         | Some airportData \<Rightarrow>
             (case find (\<lambda>row. elemAt row 0 = aircraftType) aeroplanes of
                None \<Rightarrow> Inl (InvalidAircraftType aircraftType)
              | Some aircraftData \<Rightarrow>
                  (case elemAt aircraftData 1 of
                     None \<Rightarrow> Inl TypeError
                   | Some costFigure \<Rightarrow>
                       if js_gt (distance flight airportData) (maxRange aircraftData)
                       then Inl (InsufficientRange aircraftType overseasAirportCode)
                       else if js_gt (totalSeatsBooked flight) (totalSeats aircraftData)
                       then Inl (TooManyTotal (totalSeatsBooked flight) (totalSeats aircraftData))
                       else if js_gt (parseInt econSeats) (economySeatsAvailable aircraftData)
                       then Inl (TooManyEconomy econSeats (economySeatsAvailable aircraftData))
                       else if js_gt (parseInt busSeats) (businessSeatsAvailable aircraftData)
                       then Inl (TooManyBusiness busSeats (businessSeatsAvailable aircraftData))
                       else if js_gt (parseInt firstSeats) (firstClassSeatsAvailable aircraftData)
                       then Inl (TooManyFirst firstSeats (firstClassSeatsAvailable aircraftData))
                       else
                         Inr \<lparr>flightDetails = flight,
                              income = toFixed2 (totalIncome flight),
                              cost = toFixed2 (totalCost costFigure flight airportData),
                              profit = toFixed2 (js_sub (totalIncome flight)
                                                   (totalCost costFigure flight airportData))\<rparr>)))"

subsection \<open>\<^verbatim>\<open>processFlights\<close>\<close>

text \<open>
  The two arrays the \<^verbatim>\<open>forEach\<close> loop fills. An entry of \<open>errorMessages\<close> is the flight and
  the error caught for it, from which the program formats the string
  \<^verbatim>\<open>Flight Data: ${flight.join(', ')} - Error: ${error.message}\<close>.
\<close>

record batch =
  results :: "flightResult list"
  errorMessages :: "(string list \<times> error) list"

definition processFlight ::
  "string list list \<Rightarrow> string list list \<Rightarrow> batch \<Rightarrow> string list \<Rightarrow> batch" where
  "processFlight airports aeroplanes acc flight =
     (case validateAndCalculateProfit flight airports aeroplanes of
        Inr result \<Rightarrow> acc\<lparr>results := results acc @ [result]\<rparr>
      | Inl error \<Rightarrow> acc\<lparr>errorMessages := errorMessages acc @ [(flight, error)]\<rparr>)"

definition processFlights ::
  "string list list \<Rightarrow> string list list \<Rightarrow> string list list \<Rightarrow> batch" where
  "processFlights flights airports aeroplanes =
     foldl (processFlight airports aeroplanes) \<lparr>results = [], errorMessages = []\<rparr> flights"

text \<open>
  The outcome of an evaluation without the echo of the request: the error, or the three
  formatted figures.
\<close>

definition figures :: "error + flightResult \<Rightarrow> error + numstr \<times> numstr \<times> numstr" where
  "figures outcome = map_sum id (\<lambda>r. (income r, cost r, profit r)) outcome"

subsection \<open>Generated table files\<close>

text \<open>
  The value of \<^verbatim>\<open>row\<close> after the loop body of \<^verbatim>\<open>readCsv\<close> has trimmed the line and cut
  its comment.
\<close>

definition strippedLine :: "string \<Rightarrow> string" where
  "strippedLine r =
     (let row = trim r
      in if CHR ''#'' \<in> set row then trim (hd (split ''#'' row)) else row)"

text \<open>
  A table file as a generator of test data writes it: a header line, then one line for each
  row, its fields joined by the delimiter and followed by an optional comment
  \<^verbatim>\<open>#...\<close>, the lines joined by newlines. A row is well formed when it has a field, no
  field holds a newline, a \<^verbatim>\<open>#\<close> or a character of the delimiter, the line is not blank,
  and its comment holds no newline; a delimiter when it is not empty and holds neither
  white space nor \<^verbatim>\<open>#\<close>. Trimming the line trims its first field on the left and its last
  field on the right: \<open>trimEnds\<close>.
\<close>

definition commentSuffix :: "string option \<Rightarrow> string" where
  "commentSuffix comment = (case comment of None \<Rightarrow> [] | Some t \<Rightarrow> CHR ''#'' # t)"

definition generatedLine :: "string \<Rightarrow> string list \<times> string option \<Rightarrow> string" where
  "generatedLine delimiter row = join delimiter (fst row) @ commentSuffix (snd row)"

definition generatedFile ::
  "string \<Rightarrow> string \<Rightarrow> (string list \<times> string option) list \<Rightarrow> string" where
  "generatedFile delimiter header rows =
     join [CHR 0x0A] (header # map (generatedLine delimiter) rows)"

definition wellFormedDelimiter :: "string \<Rightarrow> bool" where
  "wellFormedDelimiter delimiter \<longleftrightarrow>
     delimiter \<noteq> [] \<and> (\<forall>c \<in> set delimiter. \<not> isWhiteSpace c \<and> c \<noteq> CHR ''#'')"

definition wellFormedRow :: "string \<Rightarrow> string list \<times> string option \<Rightarrow> bool" where
  "wellFormedRow delimiter row \<longleftrightarrow>
     fst row \<noteq> [] \<and>
     (\<forall>f \<in> set (fst row). \<forall>c \<in> set f.
        c \<noteq> CHR 0x0A \<and> c \<noteq> CHR ''#'' \<and> c \<notin> set delimiter) \<and>
     (\<exists>c \<in> set (join delimiter (fst row)). \<not> isWhiteSpace c) \<and>
     (\<forall>t. snd row = Some t \<longrightarrow> CHR 0x0A \<notin> set t)"

definition trimFirst :: "string list \<Rightarrow> string list" where
  "trimFirst cells = (case cells of [] \<Rightarrow> [] | f # rest \<Rightarrow> dropWhile isWhiteSpace f # rest)"

definition trimEnds :: "string list \<Rightarrow> string list" where
  "trimEnds cells = map rev (rev (trimFirst (map rev (rev (trimFirst cells)))))"

definition csvHeader :: string where
  "csvHeader = ''code,full name,distanceMAN,distanceLGW''"

definition csvRows :: "(string list \<times> string option) list" where
  "csvRows =
     [([''JFK'', ''John F Kennedy International'', ''5376'', ''5583''], Some '' busiest route''),
      (['' ORY'', ''Paris-Orly'', ''610'', ''325 ''], None)]"

subsection \<open>The tables of the repository's tests\<close>

definition airportsData :: "string list list" where
  "airportsData =
     [[''JFK'', ''John F Kennedy International'', ''5376'', ''5583''],
      [''ORY'', ''Paris-Orly'', ''610'', ''325'']]"

definition aeroplanesData :: "string list list" where
  "aeroplanesData =
     [[''Medium narrow body'', CHR 0xA3 # ''8'', ''2650'', ''160'', ''12'', ''0''],
      [''Large narrow body'', CHR 0xA3 # ''7'', ''5600'', ''180'', ''20'', ''4'']]"

definition largeNarrowBody :: "string list" where
  "largeNarrowBody = [''Large narrow body'', CHR 0xA3 # ''7'', ''5600'', ''180'', ''20'', ''4'']"

definition mediumNarrowBody :: "string list" where
  "mediumNarrowBody = [''Medium narrow body'', CHR 0xA3 # ''8'', ''2650'', ''160'', ''12'', ''0'']"

definition jfk :: "string list" where
  "jfk = [''JFK'', ''John F Kennedy International'', ''5376'', ''5583'']"

definition ory :: "string list" where
  "ory = [''ORY'', ''Paris-Orly'', ''610'', ''325'']"

subsection \<open>Requests used as examples\<close>

text \<open>The requests of the repository's tests: one that succeeds and three that fail.\<close>

definition validFlight :: "string list" where
  "validFlight =
     [''MAN'', ''JFK'', ''Large narrow body'', ''150'', ''12'', ''2'', ''399'', ''999'', ''1899'']"

definition rangeFlight :: "string list" where
  "rangeFlight =
     [''MAN'', ''JFK'', ''Medium narrow body'', ''150'', ''12'', ''2'', ''399'', ''999'', ''1899'']"

definition overbookedFlight :: "string list" where
  "overbookedFlight =
     [''LGW'', ''ORY'', ''Large narrow body'', ''200'', ''25'', ''5'', ''450'', ''1200'', ''2500'']"

definition unknownAirportFlight :: "string list" where
  "unknownAirportFlight =
     [''LGW'', ''INVALID'', ''Medium narrow body'', ''120'', ''8'', ''0'', ''150'', ''450'', ''0'']"

text \<open>Further requests on the same tables, one for each of the remaining outcomes.\<close>

definition unknownAircraftFlight :: "string list" where
  "unknownAircraftFlight =
     [''LGW'', ''ORY'', ''Airship'', ''120'', ''8'', ''0'', ''150'', ''450'', ''0'']"

definition economyOverFlight :: "string list" where
  "economyOverFlight =
     [''LGW'', ''ORY'', ''Large narrow body'', ''181'', ''20'', ''0'', ''450'', ''1200'', ''2500'']"

definition businessOverFlight :: "string list" where
  "businessOverFlight =
     [''LGW'', ''ORY'', ''Large narrow body'', ''180'', ''21'', ''0'', ''450'', ''1200'', ''2500'']"

definition firstOverFlight :: "string list" where
  "firstOverFlight =
     [''LGW'', ''ORY'', ''Large narrow body'', ''180'', ''19'', ''5'', ''450'', ''1200'', ''2500'']"

definition negativeFlight :: "string list" where
  "negativeFlight =
     [''MAN'', ''JFK'', ''Large narrow body'', ''-5'', ''12'', ''2'', ''399'', ''999'', ''1899'']"

section \<open>Evaluation of the examples\<close>

lemma floor_div_num: "\<lfloor>(numeral a :: rat) / numeral b\<rfloor> = numeral a div numeral b"
  by (metis floor_divide_of_int_eq of_int_numeral)

lemma floor_one_div: "\<lfloor>(1 :: rat) / numeral b\<rfloor> = 1 div numeral b"
  by (metis floor_divide_of_int_eq of_int_numeral of_int_1)

lemmas round64_eval =
  round64_def roundPos_def roundedPos_def exponent_def expoUp.simps expoDown.simps
  roundHalfEven_def Let_def floor_div_num floor_one_div js_neg_def

lemmas parse_eval =
  parseInt_def parseFloat_def takeSign_def trimStart_def ToString_def isWhiteSpace_def
  isRadixDigit_def digitValue_def radixValue_def exponentPart_def

lemmas table_eval =
  airportsData_def aeroplanesData_def jfk_def ory_def largeNarrowBody_def mediumNarrowBody_def
  elemAt_def

lemmas gate_eval =
  distance_def maxRange_def economySeatsAvailable_def businessSeatsAvailable_def
  firstClassSeatsAvailable_def totalSeats_def totalSeatsBooked_def

section \<open>Rounding is monotone\<close>

text \<open>
  Rounding to the nearest double preserves order, and so does the addition of doubles; NaN
  compares greater than nothing.
\<close>

lemma two_powi_Suc: "(2::rat) powi (e + 1) = 2 * 2 powi e"
  by (simp add: power_int_add_1')

lemma two_powi_pred: "2 * (2::rat) powi (e - 1) = 2 powi e"
  using two_powi_Suc [of "e - 1"] by simp

lemma expoUp_spec:
  "1 \<le> a \<Longrightarrow> e \<le> 1024 \<Longrightarrow>
   e \<le> expoUp e a \<and> expoUp e a \<le> 1024 \<and>
   2 powi (expoUp e a) \<le> a * 2 powi e \<and>
   (expoUp e a < 1024 \<longrightarrow> a * 2 powi e < 2 powi (expoUp e a + 1))"
proof (induction e a rule: expoUp.induct)
  case (1 e a)
  show ?case
  proof (cases "a < 2 \<or> 1024 \<le> e")
    case True
    then have eq: "expoUp e a = e" by (simp add: expoUp.simps)
    have "(2::rat) powi e \<le> a * 2 powi e"
      using mult_right_mono [of 1 a "2 powi e"] "1.prems"(1) by simp
    moreover have "e < 1024 \<longrightarrow> a * 2 powi e < 2 powi (e + 1)"
      using True by (auto simp: two_powi_Suc)
    ultimately show ?thesis using "1.prems" eq by simp
  next
    case False
    then have eq: "expoUp e a = expoUp (e + 1) (a / 2)" by (subst expoUp.simps) simp
    have "1 \<le> a / 2" "e + 1 \<le> 1024" using False by auto
    from "1.IH" [OF False this]
    show ?thesis unfolding eq by (simp add: two_powi_Suc)
  qed
qed

lemma expoDown_spec:
  "0 < a \<Longrightarrow> a < 2 \<Longrightarrow> - 1022 \<le> e \<Longrightarrow>
   - 1022 \<le> expoDown e a \<and> expoDown e a \<le> e \<and>
   a * 2 powi e < 2 powi (expoDown e a + 1) \<and>
   (- 1022 < expoDown e a \<longrightarrow> 2 powi (expoDown e a) \<le> a * 2 powi e)"
proof (induction e a rule: expoDown.induct)
  case (1 e a)
  show ?case
  proof (cases "1 \<le> a \<or> e \<le> - 1022")
    case True
    then have eq: "expoDown e a = e" by (simp add: expoDown.simps)
    have "a * 2 powi e < 2 powi (e + 1)"
      using "1.prems"(2) by (simp add: two_powi_Suc)
    moreover have "- 1022 < e \<longrightarrow> (2::rat) powi e \<le> a * 2 powi e"
      using True mult_right_mono [of 1 a "2 powi e"] by auto
    ultimately show ?thesis using "1.prems" eq by simp
  next
    case False
    then have eq: "expoDown e a = expoDown (e - 1) (2 * a)" by (subst expoDown.simps) simp
    have "0 < 2 * a" "2 * a < 2" "- 1022 \<le> e - 1" using False "1.prems" by auto
    from "1.IH" [OF False this]
    show ?thesis unfolding eq
      using two_powi_pred [of e] by (simp add: mult.assoc mult.left_commute)
  qed
qed

lemma exponent_spec:
  assumes "0 < a"
  shows "- 1022 \<le> exponent a" "exponent a \<le> 1024"
    "exponent a < 1024 \<Longrightarrow> a < 2 powi (exponent a + 1)"
    "- 1022 < exponent a \<Longrightarrow> 2 powi (exponent a) \<le> a"
proof -
  show "- 1022 \<le> exponent a" "exponent a \<le> 1024"
    "exponent a < 1024 \<Longrightarrow> a < 2 powi (exponent a + 1)"
    "- 1022 < exponent a \<Longrightarrow> 2 powi (exponent a) \<le> a"
    using expoUp_spec [of a 0] expoDown_spec [of a 0] assms
    by (auto simp: exponent_def not_le)
qed

lemma exponent_mono:
  assumes "0 < a" "a \<le> b"
  shows "exponent a \<le> exponent b"
proof (rule ccontr)
  assume "\<not> exponent a \<le> exponent b"
  then have lt: "exponent b < exponent a" by simp
  have b: "0 < b" using assms by simp
  have "- 1022 < exponent a" using lt exponent_spec(1) [OF b] by simp
  then have "2 powi (exponent a) \<le> a" by (rule exponent_spec(4) [OF assms(1)])
  moreover have "exponent b < 1024" using lt exponent_spec(2) [OF assms(1)] by simp
  then have "b < 2 powi (exponent b + 1)" by (rule exponent_spec(3) [OF b])
  moreover have "(2::rat) powi (exponent b + 1) \<le> 2 powi (exponent a)"
    using lt by (intro power_int_increasing) auto
  ultimately show False using assms(2) by simp
qed

lemma roundHalfEven_bounds: "\<lfloor>x\<rfloor> \<le> roundHalfEven x" "roundHalfEven x \<le> \<lfloor>x\<rfloor> + 1"
  by (simp_all add: roundHalfEven_def Let_def)

lemma roundHalfEven_of_int [simp]: "roundHalfEven (of_int n) = n"
  by (simp add: roundHalfEven_def)

lemma roundHalfEven_mono:
  assumes "x \<le> y"
  shows "roundHalfEven x \<le> roundHalfEven y"
proof (cases "\<lfloor>x\<rfloor> = \<lfloor>y\<rfloor>")
  case True
  with assms have "x - of_int \<lfloor>x\<rfloor> \<le> y - of_int \<lfloor>y\<rfloor>" by simp
  with True show ?thesis by (auto simp: roundHalfEven_def Let_def)
next
  case False
  with assms have "\<lfloor>x\<rfloor> + 1 \<le> \<lfloor>y\<rfloor>" using floor_mono [OF assms] by simp
  with roundHalfEven_bounds [of x] roundHalfEven_bounds [of y] show ?thesis by simp
qed

lemma roundHalfEven_le_int: "x \<le> of_int n \<Longrightarrow> roundHalfEven x \<le> n"
  using roundHalfEven_mono [of x "of_int n"] by simp

lemma roundHalfEven_ge_int: "of_int n \<le> x \<Longrightarrow> n \<le> roundHalfEven x"
  using roundHalfEven_mono [of "of_int n" x] by simp

lemma roundPos_alt: "roundPos a = (if 2 ^ 1024 \<le> roundedPos a then PInf else Fin (roundedPos a))"
  by (simp add: roundPos_def Let_def)

lemma roundedPos_nonneg: "0 < a \<Longrightarrow> 0 \<le> roundedPos a"
proof -
  assume "0 < a"
  then have "of_int 0 \<le> a / 2 powi (exponent a - 52)" by simp
  then have "0 \<le> roundHalfEven (a / 2 powi (exponent a - 52))" by (rule roundHalfEven_ge_int)
  then show ?thesis by (simp add: roundedPos_def Let_def)
qed

lemma roundedPos_upper:
  assumes "0 < a" "exponent a < 1024"
  shows "roundedPos a \<le> 2 powi (exponent a + 1)"
proof -
  let ?q = "(2::rat) powi (exponent a - 52)"
  have q: "0 < ?q" by simp
  have "(2::rat) powi (exponent a + 1) = 2 powi ((exponent a - 52) + 53)"
    by (rule arg_cong [where f = "\<lambda>e. 2 powi e"]) simp
  also have "\<dots> = ?q * 2 powi 53"
    by (rule power_int_add) simp
  finally have split: "(2::rat) powi (exponent a + 1) = of_int (2 ^ 53) * ?q"
    by (simp add: mult.commute)
  have "a < 2 powi (exponent a + 1)" by (rule exponent_spec(3) [OF assms])
  then have "a / ?q \<le> of_int (2 ^ 53)" using q unfolding split by (simp add: field_simps)
  then have "roundHalfEven (a / ?q) \<le> 2 ^ 53" by (rule roundHalfEven_le_int)
  then have "(of_int (roundHalfEven (a / ?q)) :: rat) \<le> of_int (2 ^ 53)"
    by (simp only: of_int_le_iff)
  then have "of_int (roundHalfEven (a / ?q)) * ?q \<le> of_int (2 ^ 53) * ?q"
    using q by (simp only: mult_le_cancel_right_pos)
  then show ?thesis unfolding split roundedPos_def Let_def .
qed

lemma roundedPos_lower:
  assumes "0 < a" "- 1022 < exponent a"
  shows "2 powi (exponent a) \<le> roundedPos a"
proof -
  let ?q = "(2::rat) powi (exponent a - 52)"
  have q: "0 < ?q" by simp
  have "(2::rat) powi (exponent a) = 2 powi ((exponent a - 52) + 52)"
    by (rule arg_cong [where f = "\<lambda>e. 2 powi e"]) simp
  also have "\<dots> = ?q * 2 powi 52"
    by (rule power_int_add) simp
  finally have split: "(2::rat) powi (exponent a) = of_int (2 ^ 52) * ?q"
    by (simp add: mult.commute)
  have "2 powi (exponent a) \<le> a" by (rule exponent_spec(4) [OF assms])
  then have "of_int (2 ^ 52) \<le> a / ?q" using q unfolding split by (simp add: field_simps)
  then have "2 ^ 52 \<le> roundHalfEven (a / ?q)" by (rule roundHalfEven_ge_int)
  then have "(of_int (2 ^ 52) :: rat) \<le> of_int (roundHalfEven (a / ?q))"
    by (simp only: of_int_le_iff)
  then have "of_int (2 ^ 52) * ?q \<le> of_int (roundHalfEven (a / ?q)) * ?q"
    using q by (simp only: mult_le_cancel_right_pos)
  then show ?thesis unfolding split roundedPos_def Let_def .
qed

lemma roundedPos_mono:
  assumes "0 < a" "a \<le> b"
  shows "roundedPos a \<le> roundedPos b"
proof (cases "exponent a = exponent b")
  case True
  let ?q = "(2::rat) powi (exponent b - 52)"
  have q: "0 < ?q" by simp
  have "a / ?q \<le> b / ?q" using assms(2) q by (intro divide_right_mono) simp_all
  then have "roundHalfEven (a / ?q) \<le> roundHalfEven (b / ?q)" by (rule roundHalfEven_mono)
  then have "(of_int (roundHalfEven (a / ?q)) :: rat) \<le> of_int (roundHalfEven (b / ?q))"
    by (simp only: of_int_le_iff)
  then show ?thesis
    unfolding roundedPos_def Let_def True using q by (simp only: mult_le_cancel_right_pos)
next
  case False
  have b: "0 < b" using assms by simp
  from False exponent_mono [OF assms] have lt: "exponent a < exponent b" by simp
  have "exponent a < 1024" using lt exponent_spec(2) [OF b] by simp
  then have "roundedPos a \<le> 2 powi (exponent a + 1)" by (rule roundedPos_upper [OF assms(1)])
  also have "\<dots> \<le> 2 powi (exponent b)"
    using lt by (intro power_int_increasing) auto
  also have "- 1022 < exponent b" using lt exponent_spec(1) [OF assms(1)] by simp
  then have "2 powi (exponent b) \<le> roundedPos b" by (rule roundedPos_lower [OF b])
  finally show ?thesis .
qed

lemma round64_alt:
  "round64 x =
     (if x = 0 then Fin 0
      else if 0 < x then (if 2 ^ 1024 \<le> roundedPos x then PInf else Fin (roundedPos x))
      else (if 2 ^ 1024 \<le> roundedPos (- x) then NInf else Fin (- roundedPos (- x))))"
  by (simp add: round64_def roundPos_alt js_neg_def)

lemma round64_mono:
  assumes "x \<le> y"
  shows "\<not> js_gt (round64 x) (round64 y)"
proof -
  consider "x = 0" | "0 < x" | "x < 0" by linarith
  then show ?thesis
  proof cases
    case 1
    then show ?thesis using assms roundedPos_nonneg [of y] by (auto simp: round64_alt)
  next
    case 2
    then have "roundedPos x \<le> roundedPos y" using assms by (intro roundedPos_mono)
    then show ?thesis using 2 assms by (auto simp: round64_alt)
  next
    case 3
    show ?thesis
    proof (cases "y < 0")
      case True
      then have "roundedPos (- y) \<le> roundedPos (- x)" using assms by (intro roundedPos_mono) auto
      then show ?thesis using 3 True by (auto simp: round64_alt)
    next
      case False
      then show ?thesis
        using 3 roundedPos_nonneg [of "- x"] roundedPos_nonneg [of y] by (auto simp: round64_alt)
    qed
  qed
qed

lemma js_add_mono:
  assumes "\<not> js_gt a A" "\<not> js_gt b B"
  shows "\<not> js_gt (js_add a b) (js_add A B)"
proof (cases a; cases A; cases b; cases B)
  fix r R s S
  assume "a = Fin r" "A = Fin R" "b = Fin s" "B = Fin S"
  with assms show ?thesis using round64_mono [of "r + s" "R + S"] by simp
qed (use assms in \<open>simp_all add: round64_alt\<close>)

section \<open>The evaluator, case by case\<close>

lemma find_append_Some: "find P xs = Some r \<Longrightarrow> find P (xs @ ys) = Some r"
  by (induction xs) (auto split: if_splits)

lemma find_first_match:
  "find P pre = None \<Longrightarrow> P row \<Longrightarrow> find P (pre @ row # post) = Some row"
  by (induction pre) (auto split: if_splits)

lemma find_Some_set: "find P xs = Some r \<Longrightarrow> r \<in> set xs \<and> P r"
  by (induction xs) (auto split: if_splits)

lemma validate_cong_find:
  assumes "find (\<lambda>row. elemAt row 0 = elemAt flight 1) airports
             = find (\<lambda>row. elemAt row 0 = elemAt flight 1) airports'"
      and "find (\<lambda>row. elemAt row 0 = elemAt flight 2) aeroplanes
             = find (\<lambda>row. elemAt row 0 = elemAt flight 2) aeroplanes'"
  shows "validateAndCalculateProfit flight airports aeroplanes
           = validateAndCalculateProfit flight airports' aeroplanes'"
  unfolding validateAndCalculateProfit_def Let_def assms ..

lemma validate_found:
  assumes "find (\<lambda>row. elemAt row 0 = elemAt flight 1) airports = Some airportData"
      and "find (\<lambda>row. elemAt row 0 = elemAt flight 2) aeroplanes = Some aircraftData"
      and "elemAt aircraftData 1 = Some costFigure"
  shows "validateAndCalculateProfit flight airports aeroplanes =
     (if js_gt (distance flight airportData) (maxRange aircraftData)
      then Inl (InsufficientRange (elemAt flight 2) (elemAt flight 1))
      else if js_gt (totalSeatsBooked flight) (totalSeats aircraftData)
      then Inl (TooManyTotal (totalSeatsBooked flight) (totalSeats aircraftData))
      else if js_gt (parseInt (elemAt flight 3)) (economySeatsAvailable aircraftData)
      then Inl (TooManyEconomy (elemAt flight 3) (economySeatsAvailable aircraftData))
      else if js_gt (parseInt (elemAt flight 4)) (businessSeatsAvailable aircraftData)
      then Inl (TooManyBusiness (elemAt flight 4) (businessSeatsAvailable aircraftData))
      else if js_gt (parseInt (elemAt flight 5)) (firstClassSeatsAvailable aircraftData)
      then Inl (TooManyFirst (elemAt flight 5) (firstClassSeatsAvailable aircraftData))
      else Inr \<lparr>flightDetails = flight,
                income = toFixed2 (totalIncome flight),
                cost = toFixed2 (totalCost costFigure flight airportData),
                profit = toFixed2 (js_sub (totalIncome flight)
                                     (totalCost costFigure flight airportData))\<rparr>)"
  unfolding validateAndCalculateProfit_def Let_def by (simp only: assms option.case)

lemma validate_no_airport:
  "find (\<lambda>row. elemAt row 0 = elemAt flight 1) airports = None \<Longrightarrow>
   validateAndCalculateProfit flight airports aeroplanes
     = Inl (InvalidAirportCode (elemAt flight 1))"
  unfolding validateAndCalculateProfit_def Let_def by (simp only: option.case)

lemma validate_no_aircraft:
  "find (\<lambda>row. elemAt row 0 = elemAt flight 1) airports = Some airportData \<Longrightarrow>
   find (\<lambda>row. elemAt row 0 = elemAt flight 2) aeroplanes = None \<Longrightarrow>
   validateAndCalculateProfit flight airports aeroplanes
     = Inl (InvalidAircraftType (elemAt flight 2))"
  unfolding validateAndCalculateProfit_def Let_def by (simp only: option.case)

lemma validate_no_cost:
  "find (\<lambda>row. elemAt row 0 = elemAt flight 1) airports = Some airportData \<Longrightarrow>
   find (\<lambda>row. elemAt row 0 = elemAt flight 2) aeroplanes = Some aircraftData \<Longrightarrow>
   elemAt aircraftData 1 = None \<Longrightarrow>
   validateAndCalculateProfit flight airports aeroplanes = Inl TypeError"
  unfolding validateAndCalculateProfit_def Let_def by (simp only: option.case)

lemma validate_Inr_cases:
  assumes "validateAndCalculateProfit flight airports aeroplanes = Inr res"
  obtains airportData aircraftData costFigure where
    "find (\<lambda>row. elemAt row 0 = elemAt flight 1) airports = Some airportData"
    "find (\<lambda>row. elemAt row 0 = elemAt flight 2) aeroplanes = Some aircraftData"
    "elemAt aircraftData 1 = Some costFigure"
proof (cases "find (\<lambda>row. elemAt row 0 = elemAt flight 1) airports")
  case None
  with assms show ?thesis by (simp add: validate_no_airport)
next
  case ap: (Some airportData)
  show ?thesis
  proof (cases "find (\<lambda>row. elemAt row 0 = elemAt flight 2) aeroplanes")
    case None
    with assms ap show ?thesis by (simp add: validate_no_aircraft)
  next
    case ac: (Some aircraftData)
    show ?thesis
    proof (cases "elemAt aircraftData 1")
      case None
      with assms ap ac show ?thesis by (simp add: validate_no_cost)
    next
      case (Some costFigure)
      with ap ac that show ?thesis by blast
    qed
  qed
qed

subsection \<open>The requests of the tests, evaluated\<close>

lemma find_jfk: "find (\<lambda>row. elemAt row 0 = Some ''JFK'') airportsData = Some jfk"
  by (simp add: table_eval)

lemma find_ory: "find (\<lambda>row. elemAt row 0 = Some ''ORY'') airportsData = Some ory"
  by (simp add: table_eval)

lemma find_large:
  "find (\<lambda>row. elemAt row 0 = Some ''Large narrow body'') aeroplanesData = Some largeNarrowBody"
  by (simp add: table_eval)

lemma find_medium:
  "find (\<lambda>row. elemAt row 0 = Some ''Medium narrow body'') aeroplanesData
     = Some mediumNarrowBody"
  by (simp add: table_eval)

lemma large_eval:
  "elemAt largeNarrowBody 1 = Some (CHR 0xA3 # ''7'')"
  "maxRange largeNarrowBody = Fin 5600"
  "economySeatsAvailable largeNarrowBody = Fin 180"
  "businessSeatsAvailable largeNarrowBody = Fin 20"
  "firstClassSeatsAvailable largeNarrowBody = Fin 4"
  "totalSeats largeNarrowBody = Fin 204"
  by (simp_all add: table_eval gate_eval parse_eval round64_eval)

lemma medium_eval:
  "elemAt mediumNarrowBody 1 = Some (CHR 0xA3 # ''8'')"
  "maxRange mediumNarrowBody = Fin 2650"
  by (simp_all add: table_eval gate_eval parse_eval round64_eval)

lemma runningCost_7:
  "runningCost (CHR 0xA3 # ''7'') = Fin (1261007895663739 / 18014398509481984)"
  by (simp add: runningCost_def js_div100_def parse_eval round64_eval)

lemma valid_fields:
  "elemAt validFlight 0 = Some ''MAN''"
  "elemAt validFlight 1 = Some ''JFK''"
  "elemAt validFlight 2 = Some ''Large narrow body''"
  "parseInt (elemAt validFlight 3) = Fin 150"
  "parseInt (elemAt validFlight 4) = Fin 12"
  "parseInt (elemAt validFlight 5) = Fin 2"
  "parseFloat (elemAt validFlight 6) = Fin 399"
  "parseFloat (elemAt validFlight 7) = Fin 999"
  "parseFloat (elemAt validFlight 8) = Fin 1899"
  by (simp_all add: validFlight_def elemAt_def parse_eval round64_eval)

lemma valid_distance: "distance validFlight jfk = Fin 5376"
  by (simp add: distance_def valid_fields) (simp add: table_eval parse_eval round64_eval)

lemma valid_totalSeatsBooked: "totalSeatsBooked validFlight = Fin 164"
  by (simp add: totalSeatsBooked_def valid_fields round64_eval)

lemma valid_totalIncome: "totalIncome validFlight = Fin 75636"
  by (simp add: totalIncome_def valid_fields round64_eval)

lemma valid_costPerSeat:
  "costPerSeat (CHR 0xA3 # ''7'') validFlight jfk = Fin (3310145726117315 / 8796093022208)"
  by (simp add: costPerSeat_def runningCost_7 valid_distance round64_eval)

lemma valid_totalCost:
  "totalCost (CHR 0xA3 # ''7'') validFlight jfk = Fin (2120562105793905 / 34359738368)"
  by (simp add: totalCost_def valid_costPerSeat valid_totalSeatsBooked round64_eval)

lemma valid_profit:
  "js_sub (Fin 75636) (Fin (2120562105793905 / 34359738368))
     = Fin (478271065408143 / 34359738368)"
  by (simp add: js_sub_def round64_eval)

lemma decimal_eval:
  "decimal 7563600 = ''7563600''"
  "decimal 6171648 = ''6171648''"
  "decimal 1391952 = ''1391952''"
  by (simp_all add: decimal.simps digitChar_def)

lemma toFixed2_eval:
  "toFixed2 (Fin 75636) = Digits ''75636.00''"
  "toFixed2 (Fin (2120562105793905 / 34359738368)) = Digits ''61716.48''"
  "toFixed2 (Fin (478271065408143 / 34359738368)) = Digits ''13919.52''"
  by (simp_all add: toFixed2_def Let_def floor_div_num decimal_eval)

lemma valid_lookups:
  "find (\<lambda>row. elemAt row 0 = elemAt validFlight 1) airportsData = Some jfk"
  "find (\<lambda>row. elemAt row 0 = elemAt validFlight 2) aeroplanesData = Some largeNarrowBody"
  by (simp_all only: valid_fields find_jfk find_large)

lemma valid_flight_result:
  "validateAndCalculateProfit validFlight airportsData aeroplanesData =
     Inr \<lparr>flightDetails = validFlight, income = Digits ''75636.00'',
          cost = Digits ''61716.48'', profit = Digits ''13919.52''\<rparr>"
  unfolding validate_found [OF valid_lookups large_eval(1)]
  by (simp add: valid_distance large_eval valid_totalSeatsBooked valid_fields
        valid_totalIncome valid_totalCost valid_profit toFixed2_eval)

lemma claim_examples_gates:
  "find (\<lambda>row. elemAt row 0 = elemAt unknownAirportFlight 1) airportsData = None"
  "find (\<lambda>row. elemAt row 0 = elemAt unknownAircraftFlight 1) airportsData = Some ory"
  "find (\<lambda>row. elemAt row 0 = elemAt unknownAircraftFlight 2) aeroplanesData = None"
  "find (\<lambda>row. elemAt row 0 = elemAt rangeFlight 1) airportsData = Some jfk"
  "find (\<lambda>row. elemAt row 0 = elemAt rangeFlight 2) aeroplanesData = Some mediumNarrowBody"
  "js_gt (distance rangeFlight jfk) (maxRange mediumNarrowBody)"
  "js_gt (parseInt (elemAt rangeFlight 5)) (firstClassSeatsAvailable mediumNarrowBody)"
  by (simp_all add: unknownAirportFlight_def unknownAircraftFlight_def rangeFlight_def
        table_eval gate_eval parse_eval round64_eval)

lemma overbooked_gates:
  "find (\<lambda>row. elemAt row 0 = elemAt overbookedFlight 1) airportsData = Some ory"
  "find (\<lambda>row. elemAt row 0 = elemAt overbookedFlight 2) aeroplanesData = Some largeNarrowBody"
  "\<not> js_gt (distance overbookedFlight ory) (maxRange largeNarrowBody)"
  "js_gt (totalSeatsBooked overbookedFlight) (totalSeats largeNarrowBody)"
  "totalSeatsBooked overbookedFlight = Fin 230"
  "js_gt (parseInt (elemAt overbookedFlight 3)) (economySeatsAvailable largeNarrowBody)"
  by (simp_all add: overbookedFlight_def table_eval gate_eval parse_eval round64_eval)

lemma economyOver_gates:
  "find (\<lambda>row. elemAt row 0 = elemAt economyOverFlight 1) airportsData = Some ory"
  "find (\<lambda>row. elemAt row 0 = elemAt economyOverFlight 2) aeroplanesData = Some largeNarrowBody"
  "\<not> js_gt (distance economyOverFlight ory) (maxRange largeNarrowBody)"
  "\<not> js_gt (totalSeatsBooked economyOverFlight) (totalSeats largeNarrowBody)"
  "js_gt (parseInt (elemAt economyOverFlight 3)) (economySeatsAvailable largeNarrowBody)"
  "elemAt economyOverFlight 3 = Some ''181''"
  by (simp_all add: economyOverFlight_def table_eval gate_eval parse_eval round64_eval)

lemma businessOver_gates:
  "find (\<lambda>row. elemAt row 0 = elemAt businessOverFlight 1) airportsData = Some ory"
  "find (\<lambda>row. elemAt row 0 = elemAt businessOverFlight 2) aeroplanesData = Some largeNarrowBody"
  "\<not> js_gt (distance businessOverFlight ory) (maxRange largeNarrowBody)"
  "\<not> js_gt (totalSeatsBooked businessOverFlight) (totalSeats largeNarrowBody)"
  "\<not> js_gt (parseInt (elemAt businessOverFlight 3)) (economySeatsAvailable largeNarrowBody)"
  "js_gt (parseInt (elemAt businessOverFlight 4)) (businessSeatsAvailable largeNarrowBody)"
  "elemAt businessOverFlight 4 = Some ''21''"
  by (simp_all add: businessOverFlight_def table_eval gate_eval parse_eval round64_eval)

lemma firstOver_gates:
  "find (\<lambda>row. elemAt row 0 = elemAt firstOverFlight 1) airportsData = Some ory"
  "find (\<lambda>row. elemAt row 0 = elemAt firstOverFlight 2) aeroplanesData = Some largeNarrowBody"
  "\<not> js_gt (distance firstOverFlight ory) (maxRange largeNarrowBody)"
  "\<not> js_gt (totalSeatsBooked firstOverFlight) (totalSeats largeNarrowBody)"
  "\<not> js_gt (parseInt (elemAt firstOverFlight 3)) (economySeatsAvailable largeNarrowBody)"
  "\<not> js_gt (parseInt (elemAt firstOverFlight 4)) (businessSeatsAvailable largeNarrowBody)"
  "js_gt (parseInt (elemAt firstOverFlight 5)) (firstClassSeatsAvailable largeNarrowBody)"
  "elemAt firstOverFlight 5 = Some ''5''"
  by (simp_all add: firstOverFlight_def table_eval gate_eval parse_eval round64_eval)

lemma valid_gates:
  "\<not> js_gt (distance validFlight jfk) (maxRange largeNarrowBody)"
  "\<not> js_gt (totalSeatsBooked validFlight) (totalSeats largeNarrowBody)"
  "\<not> js_gt (parseInt (elemAt validFlight 3)) (economySeatsAvailable largeNarrowBody)"
  "\<not> js_gt (parseInt (elemAt validFlight 4)) (businessSeatsAvailable largeNarrowBody)"
  "\<not> js_gt (parseInt (elemAt validFlight 5)) (firstClassSeatsAvailable largeNarrowBody)"
  by (simp_all add: valid_distance valid_totalSeatsBooked valid_fields large_eval)

subsection \<open>The loop of \<^verbatim>\<open>processFlights\<close>\<close>

lemma processFlight_Inl:
  "validateAndCalculateProfit flight airports aeroplanes = Inl e \<Longrightarrow>
   processFlight airports aeroplanes acc flight
     = acc\<lparr>errorMessages := errorMessages acc @ [(flight, e)]\<rparr>"
  by (simp add: processFlight_def)

lemma processFlight_Inr:
  "validateAndCalculateProfit flight airports aeroplanes = Inr r \<Longrightarrow>
   processFlight airports aeroplanes acc flight = acc\<lparr>results := results acc @ [r]\<rparr>"
  by (simp add: processFlight_def)

lemma foldl_processFlight:
  "foldl (processFlight airports aeroplanes) acc flights =
     \<lparr>results = results acc @
        map projr (filter (\<lambda>r. \<not> isl r)
          (map (\<lambda>flight. validateAndCalculateProfit flight airports aeroplanes) flights)),
      errorMessages = errorMessages acc @
        map (\<lambda>flight. (flight, projl (validateAndCalculateProfit flight airports aeroplanes)))
          (filter (\<lambda>flight. isl (validateAndCalculateProfit flight airports aeroplanes)) flights)\<rparr>"
proof (induction flights arbitrary: acc)
  case Nil
  show ?case by simp
next
  case (Cons flight flights)
  show ?case
    by (cases "validateAndCalculateProfit flight airports aeroplanes")
       (simp_all add: Cons.IH processFlight_Inl processFlight_Inr)
qed

subsection \<open>Requests that differ in one field\<close>

lemma elemAt_Cons_pos: "0 < k \<Longrightarrow> elemAt (x # xs) k = elemAt xs (k - 1)"
  by (cases k) (simp_all add: elemAt_def)

lemma elemAt_update:
  "elemAt (xs[i := v]) k = (if k = i \<and> i < length xs then Some v else elemAt xs k)"
  by (simp add: elemAt_def nth_list_update)

lemma seats_depend_on_fields:
  assumes "\<And>k. 3 \<le> k \<Longrightarrow> elemAt flight' k = elemAt flight k"
  shows "totalSeatsBooked flight' = totalSeatsBooked flight"
    and "totalIncome flight' = totalIncome flight"
  by (simp_all add: totalSeatsBooked_def totalIncome_def assms)

lemma validate_same_distance:
  assumes fields: "\<And>k. 1 \<le> k \<Longrightarrow> elemAt flight' k = elemAt flight k"
      and ap: "find (\<lambda>row. elemAt row 0 = elemAt flight 1) airports = Some airportData"
      and ap': "find (\<lambda>row. elemAt row 0 = elemAt flight' 1) airports' = Some airportData'"
      and d: "distance flight' airportData' = distance flight airportData"
  shows "figures (validateAndCalculateProfit flight' airports' aeroplanes)
           = figures (validateAndCalculateProfit flight airports aeroplanes)"
proof -
  have f: "elemAt flight' 1 = elemAt flight 1" "elemAt flight' 2 = elemAt flight 2"
    "elemAt flight' 3 = elemAt flight 3" "elemAt flight' 4 = elemAt flight 4"
    "elemAt flight' 5 = elemAt flight 5"
    by (simp_all only: fields)
  have s: "totalSeatsBooked flight' = totalSeatsBooked flight"
    "totalIncome flight' = totalIncome flight"
    by (rule seats_depend_on_fields, simp add: fields)+
  show ?thesis
  proof (cases "find (\<lambda>row. elemAt row 0 = elemAt flight 2) aeroplanes")
    case None
    then have "find (\<lambda>row. elemAt row 0 = elemAt flight' 2) aeroplanes = None"
      by (simp only: f)
    with None ap ap' show ?thesis
      by (simp only: validate_no_aircraft f)
  next
    case ac: (Some aircraftData)
    then have ac': "find (\<lambda>row. elemAt row 0 = elemAt flight' 2) aeroplanes = Some aircraftData"
      by (simp only: f)
    show ?thesis
    proof (cases "elemAt aircraftData 1")
      case None
      with ac ac' ap ap' show ?thesis by (simp only: validate_no_cost)
    next
      case (Some costFigure)
      show ?thesis
        unfolding validate_found [OF ap ac Some] validate_found [OF ap' ac' Some]
        by (simp add: figures_def f s d totalCost_def costPerSeat_def del: One_nat_def)
    qed
  qed
qed

lemma validate_other_seats:
  assumes ok: "validateAndCalculateProfit flight airports aeroplanes = Inr res"
      and ac: "find (\<lambda>row. elemAt row 0 = elemAt flight 2) aeroplanes = Some aircraftData"
      and keep: "elemAt flight' 0 = elemAt flight 0" "elemAt flight' 1 = elemAt flight 1"
        "elemAt flight' 2 = elemAt flight 2"
  obtains airportData costFigure where
    "find (\<lambda>row. elemAt row 0 = elemAt flight' 1) airports = Some airportData"
    "find (\<lambda>row. elemAt row 0 = elemAt flight' 2) aeroplanes = Some aircraftData"
    "elemAt aircraftData 1 = Some costFigure"
    "\<not> js_gt (distance flight' airportData) (maxRange aircraftData)"
    "\<not> js_gt (parseInt (elemAt flight 3)) (economySeatsAvailable aircraftData)"
    "\<not> js_gt (parseInt (elemAt flight 4)) (businessSeatsAvailable aircraftData)"
    "\<not> js_gt (parseInt (elemAt flight 5)) (firstClassSeatsAvailable aircraftData)"
proof -
  from ok obtain airportData aircraftData' costFigure where
    ap: "find (\<lambda>row. elemAt row 0 = elemAt flight 1) airports = Some airportData" and
    ac': "find (\<lambda>row. elemAt row 0 = elemAt flight 2) aeroplanes = Some aircraftData'" and
    cf: "elemAt aircraftData' 1 = Some costFigure"
    by (rule validate_Inr_cases)
  from ac ac' have same: "aircraftData' = aircraftData" by simp
  from ok have gates:
    "\<not> js_gt (distance flight airportData) (maxRange aircraftData)"
    "\<not> js_gt (parseInt (elemAt flight 3)) (economySeatsAvailable aircraftData)"
    "\<not> js_gt (parseInt (elemAt flight 4)) (businessSeatsAvailable aircraftData)"
    "\<not> js_gt (parseInt (elemAt flight 5)) (firstClassSeatsAvailable aircraftData)"
    unfolding validate_found [OF ap ac' cf] same by (simp_all split: if_splits)
  have "distance flight' airportData = distance flight airportData"
    by (simp add: distance_def keep)
  with gates ap ac cf same keep that show ?thesis
    by simp
qed

subsection \<open>Further requests, evaluated\<close>

lemma negative_gates:
  "find (\<lambda>row. elemAt row 0 = elemAt negativeFlight 1) airportsData = Some jfk"
  "find (\<lambda>row. elemAt row 0 = elemAt negativeFlight 2) aeroplanesData = Some largeNarrowBody"
  "\<not> js_gt (distance negativeFlight jfk) (maxRange largeNarrowBody)"
  "parseInt (elemAt negativeFlight 3) = Fin (- 5)"
  "\<not> js_gt (parseInt (elemAt negativeFlight 3)) (economySeatsAvailable largeNarrowBody)"
  "\<not> js_gt (parseInt (elemAt negativeFlight 4)) (businessSeatsAvailable largeNarrowBody)"
  "\<not> js_gt (parseInt (elemAt negativeFlight 5)) (firstClassSeatsAvailable largeNarrowBody)"
  by (simp_all add: negativeFlight_def table_eval gate_eval parse_eval round64_eval)

lemma raised_business_gates:
  "find (\<lambda>row. elemAt row 0 = elemAt (economyOverFlight[4 := ''21'']) 1) airportsData = Some ory"
  "find (\<lambda>row. elemAt row 0 = elemAt (economyOverFlight[4 := ''21'']) 2) aeroplanesData
     = Some largeNarrowBody"
  "\<not> js_gt (distance (economyOverFlight[4 := ''21'']) ory) (maxRange largeNarrowBody)"
  "\<not> js_gt (totalSeatsBooked (economyOverFlight[4 := ''21''])) (totalSeats largeNarrowBody)"
  "js_gt (parseInt (elemAt (economyOverFlight[4 := ''21'']) 3))
     (economySeatsAvailable largeNarrowBody)"
  "js_gt (parseInt (elemAt (economyOverFlight[4 := ''21'']) 4))
     (businessSeatsAvailable largeNarrowBody)"
  "\<not> js_gt (parseInt (elemAt economyOverFlight 4)) (businessSeatsAvailable largeNarrowBody)"
  "elemAt (economyOverFlight[4 := ''21'']) 3 = Some ''181''"
  "elemAt (economyOverFlight[4 := ''21'']) 4 = Some ''21''"
  by (simp_all add: economyOverFlight_def table_eval gate_eval parse_eval round64_eval)

lemma raised_valid_gates:
  "(\<forall>k. k \<noteq> 3 \<longrightarrow> elemAt (validFlight[3 := ''181'']) k = elemAt validFlight k) \<and>
   js_gt (parseInt (elemAt (validFlight[3 := ''181'']) 3))
     (economySeatsAvailable largeNarrowBody) \<and>
   \<not> js_gt (totalSeatsBooked (validFlight[3 := ''181''])) (totalSeats largeNarrowBody)"
  "(\<forall>k. k \<noteq> 4 \<longrightarrow> elemAt (validFlight[4 := ''21'']) k = elemAt validFlight k) \<and>
   js_gt (parseInt (elemAt (validFlight[4 := ''21'']) 4))
     (businessSeatsAvailable largeNarrowBody) \<and>
   \<not> js_gt (totalSeatsBooked (validFlight[4 := ''21''])) (totalSeats largeNarrowBody)"
  "(\<forall>k. k \<noteq> 5 \<longrightarrow> elemAt (validFlight[5 := ''5'']) k = elemAt validFlight k) \<and>
   js_gt (parseInt (elemAt (validFlight[5 := ''5'']) 5))
     (firstClassSeatsAvailable largeNarrowBody) \<and>
   \<not> js_gt (totalSeatsBooked (validFlight[5 := ''5''])) (totalSeats largeNarrowBody)"
  by (simp_all add: elemAt_update)
     (simp_all add: validFlight_def table_eval gate_eval parse_eval round64_eval)

lemma raised_valid_fields:
  "elemAt (validFlight[3 := ''181'']) 3 = Some ''181''"
  "elemAt (validFlight[4 := ''21'']) 4 = Some ''21''"
  "elemAt (validFlight[5 := ''5'']) 5 = Some ''5''"
  by (simp_all add: validFlight_def elemAt_def)

section \<open>The reader on generated files\<close>

lemma splitAux_field:
  "sep \<noteq> [] \<Longrightarrow> set f \<inter> set sep = {} \<Longrightarrow>
   splitAux sep cur (f @ rest) = splitAux sep (rev f @ cur) rest"
proof (induction f arbitrary: cur)
  case Nil
  show ?case by simp
next
  case (Cons c f)
  from Cons.prems obtain s sep' where sep: "sep = s # sep'" by (cases sep) auto
  with Cons.prems have "s \<noteq> c" by auto
  then have "\<not> prefix sep (c # f @ rest)" by (simp add: sep)
  with Cons show ?case by simp
qed

lemma splitAux_sep:
  "sep \<noteq> [] \<Longrightarrow> splitAux sep cur (sep @ rest) = rev cur # splitAux sep [] rest"
  by (cases sep) simp_all

lemma splitAux_last:
  "sep \<noteq> [] \<Longrightarrow> set f \<inter> set sep = {} \<Longrightarrow> splitAux sep [] f = [f]"
  using splitAux_field [of sep f "[]" "[]"] by simp

lemma join_Cons: "xs \<noteq> [] \<Longrightarrow> join sep (x # xs) = x @ sep @ join sep xs"
  by (cases xs) simp_all

lemma split_join:
  assumes "sep \<noteq> []" "cells \<noteq> []" "\<forall>f \<in> set cells. set f \<inter> set sep = {}"
  shows "split sep (join sep cells) = cells"
proof -
  have "splitAux sep [] (join sep cells) = cells"
    using assms(2,3)
  proof (induction cells rule: list_nonempty_induct)
    case (single x)
    then show ?case using assms(1) by (simp add: splitAux_last)
  next
    case (cons x xs)
    then have "splitAux sep [] (x @ sep @ join sep xs) = x # xs"
      using assms(1) by (simp add: splitAux_field splitAux_sep)
    with cons.hyps show ?case by (simp add: join_Cons)
  qed
  with assms(1) show ?thesis by (simp add: split_def)
qed

lemma readCsvLoop_eq:
  "readCsvLoop delimiter ls data =
     data @ map (split delimiter) (filter (\<lambda>row. row \<noteq> []) (map strippedLine ls))"
  by (induction ls arbitrary: data) (simp_all add: strippedLine_def Let_def)

lemma readCsv_rows:
  "readCsv (\<lambda>name. Inr content) filename delimiter =
     Inr (map (split delimiter)
            (filter (\<lambda>row. row \<noteq> []) (map strippedLine (drop 1 (split [CHR 0x0A] content)))))"
  by (simp add: readCsv_def readCsvLoop_eq Let_def)

lemma hash_not_space: "\<not> isWhiteSpace (CHR ''#'')"
  by (simp add: isWhiteSpace_def)

lemma newline_space: "isWhiteSpace (CHR 0x0A)"
  by (simp add: isWhiteSpace_def)

lemma trim_subset: "set (trim s) \<subseteq> set s"
proof -
  have "set (dropWhile P xs) \<subseteq> set xs" for P and xs :: string
    by (metis set_dropWhileD subsetI)
  from this [of isWhiteSpace "rev (dropWhile isWhiteSpace s)"] this [of isWhiteSpace s]
  show ?thesis by (auto simp: trim_def)
qed

lemma trim_nonempty:
  assumes "\<exists>c \<in> set s. \<not> isWhiteSpace c"
  shows "trim s \<noteq> []"
proof -
  from assms have ne: "dropWhile isWhiteSpace s \<noteq> []"
    by simp
  then have "\<not> isWhiteSpace (hd (dropWhile isWhiteSpace s))"
    by (rule hd_dropWhile)
  moreover from ne have "hd (dropWhile isWhiteSpace s) \<in> set (rev (dropWhile isWhiteSpace s))"
    by simp
  ultimately have "dropWhile isWhiteSpace (rev (dropWhile isWhiteSpace s)) \<noteq> []"
    by auto
  then show ?thesis by (simp add: trim_def)
qed

lemma dropWhile_before_stop:
  "\<not> P c \<Longrightarrow> dropWhile P (xs @ c # ys) = dropWhile P xs @ c # ys"
  by (induction xs) auto

lemma trim_dropWhile: "trim (dropWhile isWhiteSpace s) = trim s"
  by (simp add: trim_def)

lemma trim_comment:
  "\<exists>t'. trim (s @ CHR ''#'' # t) = dropWhile isWhiteSpace s @ CHR ''#'' # t'"
proof -
  have "dropWhile isWhiteSpace (rev t @ CHR ''#'' # rev (dropWhile isWhiteSpace s))
          = dropWhile isWhiteSpace (rev t) @ CHR ''#'' # rev (dropWhile isWhiteSpace s)"
    by (rule dropWhile_before_stop) (rule hash_not_space)
  then show ?thesis
    by (simp add: trim_def dropWhile_before_stop hash_not_space)
qed

lemma strippedLine_plain:
  "CHR ''#'' \<notin> set s \<Longrightarrow> strippedLine s = trim s"
  using trim_subset [of s] by (auto simp: strippedLine_def Let_def)

lemma strippedLine_comment:
  assumes "CHR ''#'' \<notin> set s"
  shows "strippedLine (s @ CHR ''#'' # t) = trim s"
proof -
  obtain t' where t': "trim (s @ CHR ''#'' # t) = dropWhile isWhiteSpace s @ CHR ''#'' # t'"
    using trim_comment by blast
  have "set (dropWhile isWhiteSpace s) \<inter> set ''#'' = {}"
    using assms set_dropWhileD [of _ isWhiteSpace s] by auto
  then have "splitAux ''#'' [] (dropWhile isWhiteSpace s @ ''#'' @ t')
               = splitAux ''#'' (rev (dropWhile isWhiteSpace s) @ []) (''#'' @ t')"
    by (intro splitAux_field) simp_all
  also have "\<dots> = dropWhile isWhiteSpace s # splitAux ''#'' [] t'"
    by (subst splitAux_sep) simp_all
  finally have "splitAux ''#'' [] (dropWhile isWhiteSpace s @ ''#'' @ t')
               = dropWhile isWhiteSpace s # splitAux ''#'' [] t'" .
  then have "hd (split ''#'' (trim (s @ CHR ''#'' # t))) = dropWhile isWhiteSpace s"
    by (simp add: t' split_def)
  then show ?thesis
    by (simp add: strippedLine_def Let_def t' trim_dropWhile)
qed


lemma join_snoc: "xs \<noteq> [] \<Longrightarrow> join sep (xs @ [x]) = join sep xs @ sep @ x"
  by (induction xs rule: list_nonempty_induct) (simp_all add: join_Cons)

lemma rev_join: "rev (join sep cells) = join (rev sep) (map rev (rev cells))"
proof (cases "cells = []")
  case True
  then show ?thesis by simp
next
  case False
  then show ?thesis
    by (induction cells rule: list_nonempty_induct) (simp_all add: join_Cons join_snoc)
qed

lemma dropWhile_join:
  assumes "sep \<noteq> []" "\<not> isWhiteSpace (hd sep)"
  shows "dropWhile isWhiteSpace (join sep cells) = join sep (trimFirst cells)"
proof (cases cells)
  case Nil
  then show ?thesis by (simp add: trimFirst_def)
next
  case (Cons f rest)
  show ?thesis
  proof (cases "rest = []")
    case True
    with Cons show ?thesis by (simp add: trimFirst_def)
  next
    case False
    from assms obtain c sep' where sep: "sep = c # sep'" "\<not> isWhiteSpace c"
      by (cases sep) auto
    have "dropWhile isWhiteSpace (f @ c # (sep' @ join sep rest))
            = dropWhile isWhiteSpace f @ c # (sep' @ join sep rest)"
      using sep(2) by (rule dropWhile_before_stop)
    with False Cons sep(1) show ?thesis by (simp add: trimFirst_def join_Cons)
  qed
qed

lemma trimFirst_Nil [simp]: "trimFirst cells = [] \<longleftrightarrow> cells = []"
  by (cases cells) (simp_all add: trimFirst_def)

lemma length_trimFirst [simp]: "length (trimFirst cells) = length cells"
  by (cases cells) (simp_all add: trimFirst_def)

lemma chars_trimFirst: "f \<in> set (trimFirst cells) \<Longrightarrow> \<exists>g \<in> set cells. set f \<subseteq> set g"
  by (cases cells) (auto simp: trimFirst_def dest: set_dropWhileD)

lemma trim_join:
  assumes "sep \<noteq> []" "\<forall>c \<in> set sep. \<not> isWhiteSpace c"
  shows "trim (join sep cells) = join sep (trimEnds cells)"
proof -
  have first: "\<not> isWhiteSpace (hd sep)" and last: "\<not> isWhiteSpace (hd (rev sep))"
    using assms by (simp_all add: hd_rev)
  have "trim (join sep cells) = rev (dropWhile isWhiteSpace (rev (join sep (trimFirst cells))))"
    by (simp add: trim_def dropWhile_join [OF assms(1) first])
  also have "\<dots> = rev (join (rev sep) (trimFirst (map rev (rev (trimFirst cells)))))"
    using assms(1) last by (simp add: rev_join dropWhile_join)
  also have "\<dots> = join sep (trimEnds cells)"
    by (simp add: rev_join trimEnds_def)
  finally show ?thesis .
qed

lemma length_trimEnds [simp]: "length (trimEnds cells) = length cells"
  by (simp add: trimEnds_def)

lemma trimEnds_Nil [simp]: "trimEnds cells = [] \<longleftrightarrow> cells = []"
  by (simp add: trimEnds_def)

lemma chars_trimEnds:
  assumes "f \<in> set (trimEnds cells)"
  shows "\<exists>g \<in> set cells. set f \<subseteq> set g"
proof -
  from assms obtain h where h: "h \<in> set (trimFirst (map rev (rev (trimFirst cells))))" "f = rev h"
    by (auto simp: trimEnds_def)
  from chars_trimFirst [OF h(1)] obtain k where k: "k \<in> set (trimFirst cells)" "set h \<subseteq> set k"
    by auto
  from chars_trimFirst [OF k(1)] obtain g where "g \<in> set cells" "set k \<subseteq> set g"
    by auto
  with h k show ?thesis by auto
qed

lemma set_join: "c \<in> set (join sep cells) \<Longrightarrow> c \<in> set sep \<or> (\<exists>f \<in> set cells. c \<in> set f)"
  by (induction sep cells rule: join.induct) auto

lemma generated_row:
  assumes d: "wellFormedDelimiter delimiter" and r: "wellFormedRow delimiter row"
  shows "CHR 0x0A \<notin> set (generatedLine delimiter row)"
    and "strippedLine (generatedLine delimiter row) = join delimiter (trimEnds (fst row))"
    and "join delimiter (trimEnds (fst row)) \<noteq> []"
    and "split delimiter (join delimiter (trimEnds (fst row))) = trimEnds (fst row)"
proof -
  let ?J = "join delimiter (fst row)"
  from d have sep: "delimiter \<noteq> []" "\<forall>c \<in> set delimiter. \<not> isWhiteSpace c"
    by (simp_all add: wellFormedDelimiter_def)
  from d have hash_sep: "CHR ''#'' \<notin> set delimiter"
    by (auto simp: wellFormedDelimiter_def)
  from sep(2) newline_space have newline_sep: "CHR 0x0A \<notin> set delimiter"
    by blast
  from r have cells: "fst row \<noteq> []" "\<exists>c \<in> set ?J. \<not> isWhiteSpace c"
    by (simp_all add: wellFormedRow_def)
  from r have plain: "c \<noteq> CHR 0x0A \<and> c \<noteq> CHR ''#'' \<and> c \<notin> set delimiter"
    if "f \<in> set (fst row)" "c \<in> set f" for f c
    using that by (simp add: wellFormedRow_def)
  from r have comment: "CHR 0x0A \<notin> set t" if "snd row = Some t" for t
    using that by (simp add: wellFormedRow_def)
  have newline_J: "CHR 0x0A \<notin> set ?J"
  proof
    assume "CHR 0x0A \<in> set ?J"
    from set_join [OF this] newline_sep plain show False by blast
  qed
  have hash_J: "CHR ''#'' \<notin> set ?J"
  proof
    assume "CHR ''#'' \<in> set ?J"
    from set_join [OF this] hash_sep plain show False by blast
  qed
  show "CHR 0x0A \<notin> set (generatedLine delimiter row)"
  proof (cases "snd row")
    case None
    with newline_J show ?thesis by (simp add: generatedLine_def commentSuffix_def)
  next
    case (Some t)
    with newline_J comment [OF Some] show ?thesis
      by (simp add: generatedLine_def commentSuffix_def)
  qed
  have "strippedLine (generatedLine delimiter row) = trim ?J"
  proof (cases "snd row")
    case None
    then have "generatedLine delimiter row = ?J"
      by (simp add: generatedLine_def commentSuffix_def)
    with strippedLine_plain [OF hash_J] show ?thesis by simp
  next
    case (Some t)
    then have "generatedLine delimiter row = ?J @ CHR ''#'' # t"
      by (simp add: generatedLine_def commentSuffix_def)
    with strippedLine_comment [OF hash_J] show ?thesis by simp
  qed
  also have "trim ?J = join delimiter (trimEnds (fst row))"
    by (rule trim_join [OF sep])
  finally show "strippedLine (generatedLine delimiter row)
                  = join delimiter (trimEnds (fst row))" .
  from trim_nonempty [OF cells(2)] show "join delimiter (trimEnds (fst row)) \<noteq> []"
    unfolding trim_join [OF sep] .
  have nonempty: "trimEnds (fst row) \<noteq> []"
    using cells(1) by simp
  have "\<forall>f \<in> set (trimEnds (fst row)). set f \<inter> set delimiter = {}"
  proof
    fix f
    assume "f \<in> set (trimEnds (fst row))"
    from chars_trimEnds [OF this] obtain g where g: "g \<in> set (fst row)" "set f \<subseteq> set g"
      by blast
    from plain [OF g(1)] have "set g \<inter> set delimiter = {}"
      by blast
    with g(2) show "set f \<inter> set delimiter = {}"
      by blast
  qed
  with sep(1) nonempty show "split delimiter (join delimiter (trimEnds (fst row)))
                               = trimEnds (fst row)"
    by (intro split_join)
qed

lemma generated_rows:
  assumes "wellFormedDelimiter delimiter" "\<forall>row \<in> set rows. wellFormedRow delimiter row"
  shows "map (split delimiter)
           (filter (\<lambda>row. row \<noteq> []) (map strippedLine (map (generatedLine delimiter) rows)))
         = map (\<lambda>row. trimEnds (fst row)) rows"
  using assms(2)
proof (induction rows)
  case Nil
  show ?case by simp
next
  case (Cons row rows)
  then have "wellFormedRow delimiter row" by simp
  from generated_row(2-4) [OF assms(1) this] Cons show ?case by simp
qed

section \<open>The claims\<close>

text \<open>
  Claim C1. For every flight request and pair of tables, \<^verbatim>\<open>validateAndCalculateProfit\<close>
  performs its validation gates in one fixed order: unknown destination, unknown aircraft,
  insufficient range, total overbooking, then economy, business and first-class
  overbooking. The first gate that fails decides the one error that is thrown, whatever the
  later gates would say; when none fails, a result is returned. (Between the aircraft
  lookup and the range gate the function reads the cost figure of the aircraft row; the
  gates after the lookup are reached when the row has that column.)
\<close>

theorem validation_gates_in_order:
  "(find (\<lambda>row. elemAt row 0 = elemAt flight 1) airports = None \<longrightarrow>
      validateAndCalculateProfit flight airports aeroplanes
        = Inl (InvalidAirportCode (elemAt flight 1))) \<and>
   (\<forall>airportData.
      find (\<lambda>row. elemAt row 0 = elemAt flight 1) airports = Some airportData \<and>
      find (\<lambda>row. elemAt row 0 = elemAt flight 2) aeroplanes = None \<longrightarrow>
      validateAndCalculateProfit flight airports aeroplanes
        = Inl (InvalidAircraftType (elemAt flight 2))) \<and>
   (\<forall>airportData aircraftData costFigure.
      find (\<lambda>row. elemAt row 0 = elemAt flight 1) airports = Some airportData \<and>
      find (\<lambda>row. elemAt row 0 = elemAt flight 2) aeroplanes = Some aircraftData \<and>
      elemAt aircraftData 1 = Some costFigure \<longrightarrow>
      (js_gt (distance flight airportData) (maxRange aircraftData) \<longrightarrow>
         validateAndCalculateProfit flight airports aeroplanes
           = Inl (InsufficientRange (elemAt flight 2) (elemAt flight 1))) \<and>
      (\<not> js_gt (distance flight airportData) (maxRange aircraftData) \<and>
       js_gt (totalSeatsBooked flight) (totalSeats aircraftData) \<longrightarrow>
         validateAndCalculateProfit flight airports aeroplanes
           = Inl (TooManyTotal (totalSeatsBooked flight) (totalSeats aircraftData))) \<and>
      (\<not> js_gt (distance flight airportData) (maxRange aircraftData) \<and>
       \<not> js_gt (totalSeatsBooked flight) (totalSeats aircraftData) \<and>
       js_gt (parseInt (elemAt flight 3)) (economySeatsAvailable aircraftData) \<longrightarrow>
         validateAndCalculateProfit flight airports aeroplanes
           = Inl (TooManyEconomy (elemAt flight 3) (economySeatsAvailable aircraftData))) \<and>
      (\<not> js_gt (distance flight airportData) (maxRange aircraftData) \<and>
       \<not> js_gt (totalSeatsBooked flight) (totalSeats aircraftData) \<and>
       \<not> js_gt (parseInt (elemAt flight 3)) (economySeatsAvailable aircraftData) \<and>
       js_gt (parseInt (elemAt flight 4)) (businessSeatsAvailable aircraftData) \<longrightarrow>
         validateAndCalculateProfit flight airports aeroplanes
           = Inl (TooManyBusiness (elemAt flight 4) (businessSeatsAvailable aircraftData))) \<and>
      (\<not> js_gt (distance flight airportData) (maxRange aircraftData) \<and>
       \<not> js_gt (totalSeatsBooked flight) (totalSeats aircraftData) \<and>
       \<not> js_gt (parseInt (elemAt flight 3)) (economySeatsAvailable aircraftData) \<and>
       \<not> js_gt (parseInt (elemAt flight 4)) (businessSeatsAvailable aircraftData) \<and>
       js_gt (parseInt (elemAt flight 5)) (firstClassSeatsAvailable aircraftData) \<longrightarrow>
         validateAndCalculateProfit flight airports aeroplanes
           = Inl (TooManyFirst (elemAt flight 5) (firstClassSeatsAvailable aircraftData))) \<and>
      (\<not> js_gt (distance flight airportData) (maxRange aircraftData) \<and>
       \<not> js_gt (totalSeatsBooked flight) (totalSeats aircraftData) \<and>
       \<not> js_gt (parseInt (elemAt flight 3)) (economySeatsAvailable aircraftData) \<and>
       \<not> js_gt (parseInt (elemAt flight 4)) (businessSeatsAvailable aircraftData) \<and>
       \<not> js_gt (parseInt (elemAt flight 5)) (firstClassSeatsAvailable aircraftData) \<longrightarrow>
         \<not> isl (validateAndCalculateProfit flight airports aeroplanes)))"
  by (intro conjI allI impI)
     (simp_all add: validate_no_airport validate_no_aircraft validate_found)

text \<open>
  The theorem at the requests of the examples, one for each gate and one that passes. The
  request of the tests that fails the range gate would fail the first-class gate as well,
  and the overbooked one the economy gate: the earlier gate is the one reported.
\<close>

theorem validation_gates_in_order_witness:
  "validateAndCalculateProfit unknownAirportFlight airportsData aeroplanesData
     = Inl (InvalidAirportCode (elemAt unknownAirportFlight 1)) \<and>
   validateAndCalculateProfit unknownAircraftFlight airportsData aeroplanesData
     = Inl (InvalidAircraftType (elemAt unknownAircraftFlight 2)) \<and>
   js_gt (distance rangeFlight jfk) (maxRange mediumNarrowBody) \<and>
   js_gt (parseInt (elemAt rangeFlight 5)) (firstClassSeatsAvailable mediumNarrowBody) \<and>
   validateAndCalculateProfit rangeFlight airportsData aeroplanesData
     = Inl (InsufficientRange (elemAt rangeFlight 2) (elemAt rangeFlight 1)) \<and>
   js_gt (totalSeatsBooked overbookedFlight) (totalSeats largeNarrowBody) \<and>
   js_gt (parseInt (elemAt overbookedFlight 3)) (economySeatsAvailable largeNarrowBody) \<and>
   validateAndCalculateProfit overbookedFlight airportsData aeroplanesData
     = Inl (TooManyTotal (totalSeatsBooked overbookedFlight) (totalSeats largeNarrowBody)) \<and>
   validateAndCalculateProfit economyOverFlight airportsData aeroplanesData
     = Inl (TooManyEconomy (elemAt economyOverFlight 3) (economySeatsAvailable largeNarrowBody)) \<and>
   validateAndCalculateProfit businessOverFlight airportsData aeroplanesData
     = Inl (TooManyBusiness (elemAt businessOverFlight 4)
              (businessSeatsAvailable largeNarrowBody)) \<and>
   validateAndCalculateProfit firstOverFlight airportsData aeroplanesData
     = Inl (TooManyFirst (elemAt firstOverFlight 5) (firstClassSeatsAvailable largeNarrowBody)) \<and>
   \<not> isl (validateAndCalculateProfit validFlight airportsData aeroplanesData)"
proof -
  note gates = validation_gates_in_order [THEN conjunct2, THEN conjunct2, rule_format]
  have "validateAndCalculateProfit unknownAirportFlight airportsData aeroplanesData
          = Inl (InvalidAirportCode (elemAt unknownAirportFlight 1))"
    by (rule validation_gates_in_order [THEN conjunct1, rule_format])
       (rule claim_examples_gates(1))
  moreover
  have "validateAndCalculateProfit unknownAircraftFlight airportsData aeroplanesData
          = Inl (InvalidAircraftType (elemAt unknownAircraftFlight 2))"
    by (rule validation_gates_in_order [THEN conjunct2, THEN conjunct1, rule_format])
       (rule conjI [OF claim_examples_gates(2) claim_examples_gates(3)])
  moreover
  have "validateAndCalculateProfit rangeFlight airportsData aeroplanesData
          = Inl (InsufficientRange (elemAt rangeFlight 2) (elemAt rangeFlight 1))"
    using gates [of rangeFlight airportsData jfk aeroplanesData mediumNarrowBody,
                 OF conjI [OF claim_examples_gates(4)
                      conjI [OF claim_examples_gates(5) medium_eval(1)]]]
          claim_examples_gates(6)
    by blast
  moreover
  have "validateAndCalculateProfit overbookedFlight airportsData aeroplanesData
          = Inl (TooManyTotal (totalSeatsBooked overbookedFlight) (totalSeats largeNarrowBody))"
    using gates [of overbookedFlight airportsData ory aeroplanesData largeNarrowBody,
                 OF conjI [OF overbooked_gates(1) conjI [OF overbooked_gates(2) large_eval(1)]]]
          overbooked_gates(3,4)
    by blast
  moreover
  have "validateAndCalculateProfit economyOverFlight airportsData aeroplanesData
          = Inl (TooManyEconomy (elemAt economyOverFlight 3)
                   (economySeatsAvailable largeNarrowBody))"
    using gates [of economyOverFlight airportsData ory aeroplanesData largeNarrowBody,
                 OF conjI [OF economyOver_gates(1) conjI [OF economyOver_gates(2) large_eval(1)]]]
          economyOver_gates(3,4,5)
    by blast
  moreover
  have "validateAndCalculateProfit businessOverFlight airportsData aeroplanesData
          = Inl (TooManyBusiness (elemAt businessOverFlight 4)
                   (businessSeatsAvailable largeNarrowBody))"
    using gates [of businessOverFlight airportsData ory aeroplanesData largeNarrowBody,
                 OF conjI [OF businessOver_gates(1)
                      conjI [OF businessOver_gates(2) large_eval(1)]]]
          businessOver_gates(3,4,5,6)
    by blast
  moreover
  have "validateAndCalculateProfit firstOverFlight airportsData aeroplanesData
          = Inl (TooManyFirst (elemAt firstOverFlight 5)
                   (firstClassSeatsAvailable largeNarrowBody))"
    using gates [of firstOverFlight airportsData ory aeroplanesData largeNarrowBody,
                 OF conjI [OF firstOver_gates(1) conjI [OF firstOver_gates(2) large_eval(1)]]]
          firstOver_gates(3,4,5,6,7)
    by blast
  moreover
  have "\<not> isl (validateAndCalculateProfit validFlight airportsData aeroplanesData)"
    using gates [of validFlight airportsData jfk aeroplanesData largeNarrowBody,
                 OF conjI [OF valid_lookups(1) conjI [OF valid_lookups(2) large_eval(1)]]]
          valid_gates
    by blast
  ultimately show ?thesis
    using claim_examples_gates(6,7) overbooked_gates(4,6) by blast
qed

text \<open>
  Claim C2. The request of the tests, origin MAN, destination JFK (distance 5376 from the
  primary origin), aircraft \<^verbatim>\<open>Large narrow body\<close> (cost figure \<^verbatim>\<open>\<pounds>7\<close>, range 5600,
  capacities 180/20/4), 150/12/2 seats at 399/999/1899: the evaluation succeeds with income
  \<^verbatim>\<open>75636.00\<close>, cost \<^verbatim>\<open>61716.48\<close> and profit \<^verbatim>\<open>13919.52\<close>. The running cost is the cost
  figure with its pound sign removed, parsed and divided by 100: the double nearest to
  0.07.
\<close>

theorem end_to_end_example:
  "validateAndCalculateProfit
     [''MAN'', ''JFK'', ''Large narrow body'', ''150'', ''12'', ''2'', ''399'', ''999'', ''1899'']
     airportsData aeroplanesData =
     Inr \<lparr>flightDetails =
            [''MAN'', ''JFK'', ''Large narrow body'', ''150'', ''12'', ''2'', ''399'', ''999'',
             ''1899''],
          income = Digits ''75636.00'', cost = Digits ''61716.48'',
          profit = Digits ''13919.52''\<rparr> \<and>
   runningCost (CHR 0xA3 # ''7'') = js_div100 (parseFloat (Some ''7'')) \<and>
   parseFloat (Some ''7'') = Fin 7 \<and>
   js_div100 (Fin 7) = round64 (7 / 100) \<and>
   distance validFlight jfk = Fin 5376 \<and>
   totalIncome validFlight = Fin (150 * 399 + 12 * 999 + 2 * 1899) \<and>
   totalCost (CHR 0xA3 # ''7'') validFlight jfk
     = js_mul (js_mul (round64 (7 / 100)) (Fin 5376)) (Fin 164)"
proof -
  have "parseFloat (Some ''7'') = Fin 7"
    by (simp add: parse_eval round64_eval)
  moreover have "runningCost (CHR 0xA3 # ''7'') = js_div100 (parseFloat (Some ''7''))"
    by (simp add: runningCost_def)
  moreover have r: "js_div100 (Fin 7) = round64 (7 / 100)"
    by (simp add: js_div100_def)
  moreover have "totalCost (CHR 0xA3 # ''7'') validFlight jfk
                   = js_mul (js_mul (round64 (7 / 100)) (Fin 5376)) (Fin 164)"
    using calculation
    by (simp add: totalCost_def costPerSeat_def valid_distance valid_totalSeatsBooked)
  ultimately show ?thesis
    using valid_flight_result valid_distance valid_totalIncome
    by (simp add: validFlight_def)
qed

text \<open>
  Claim C3. \<^verbatim>\<open>processFlights\<close> evaluates every request on its own: \<open>results\<close> holds the
  results of exactly the requests that evaluate without error, \<open>errorMessages\<close> one entry
  (the request and its error) for exactly the requests that fail, both in the order of the
  input; every request lands in one of the two, and a batch processed after another gives
  what it gives alone, whatever failed before it.
\<close>

theorem processFlights_partition:
  "results (processFlights flights airports aeroplanes) =
     map projr (filter (\<lambda>r. \<not> isl r)
       (map (\<lambda>flight. validateAndCalculateProfit flight airports aeroplanes) flights)) \<and>
   errorMessages (processFlights flights airports aeroplanes) =
     map (\<lambda>flight. (flight, projl (validateAndCalculateProfit flight airports aeroplanes)))
       (filter (\<lambda>flight. isl (validateAndCalculateProfit flight airports aeroplanes)) flights) \<and>
   length (results (processFlights flights airports aeroplanes))
     + length (errorMessages (processFlights flights airports aeroplanes)) = length flights \<and>
   results (processFlights (before @ after) airports aeroplanes) =
     results (processFlights before airports aeroplanes)
       @ results (processFlights after airports aeroplanes) \<and>
   errorMessages (processFlights (before @ after) airports aeroplanes) =
     errorMessages (processFlights before airports aeroplanes)
       @ errorMessages (processFlights after airports aeroplanes)"
proof -
  have len: "length (filter (\<lambda>r. \<not> isl r) (map f xs)) + length (filter (\<lambda>x. isl (f x)) xs)
               = length xs" for f :: "string list \<Rightarrow> error + flightResult" and xs
    by (induction xs) auto
  show ?thesis
    using len [of "\<lambda>flight. validateAndCalculateProfit flight airports aeroplanes" flights]
    by (simp add: processFlights_def foldl_processFlight)
qed

text \<open>
  Claim C4. A result is returned only for a request that passed every gate: its destination
  is the first field of a row of the airport table, its aircraft type the first field of a
  row of the aircraft table, the selected distance does not exceed the maximum range, no
  class's booked count exceeds that class's capacity, and the total booked does not exceed
  the sum of the three capacities. ``Does not exceed'' is the program's comparison
  \<^verbatim>\<open>>\<close> being false, which is also the case when a side is NaN.
\<close>

theorem result_passed_all_gates:
  assumes "validateAndCalculateProfit flight airports aeroplanes = Inr res"
  shows "\<exists>airportData aircraftData.
           find (\<lambda>row. elemAt row 0 = elemAt flight 1) airports = Some airportData \<and>
           airportData \<in> set airports \<and> elemAt airportData 0 = elemAt flight 1 \<and>
           find (\<lambda>row. elemAt row 0 = elemAt flight 2) aeroplanes = Some aircraftData \<and>
           aircraftData \<in> set aeroplanes \<and> elemAt aircraftData 0 = elemAt flight 2 \<and>
           \<not> js_gt (distance flight airportData) (maxRange aircraftData) \<and>
           \<not> js_gt (parseInt (elemAt flight 3)) (economySeatsAvailable aircraftData) \<and>
           \<not> js_gt (parseInt (elemAt flight 4)) (businessSeatsAvailable aircraftData) \<and>
           \<not> js_gt (parseInt (elemAt flight 5)) (firstClassSeatsAvailable aircraftData) \<and>
           \<not> js_gt (totalSeatsBooked flight) (totalSeats aircraftData)"
proof -
  from assms obtain airportData aircraftData costFigure where
    ap: "find (\<lambda>row. elemAt row 0 = elemAt flight 1) airports = Some airportData" and
    ac: "find (\<lambda>row. elemAt row 0 = elemAt flight 2) aeroplanes = Some aircraftData" and
    cf: "elemAt aircraftData 1 = Some costFigure"
    by (rule validate_Inr_cases)
  from assms have
    "\<not> js_gt (distance flight airportData) (maxRange aircraftData) \<and>
     \<not> js_gt (parseInt (elemAt flight 3)) (economySeatsAvailable aircraftData) \<and>
     \<not> js_gt (parseInt (elemAt flight 4)) (businessSeatsAvailable aircraftData) \<and>
     \<not> js_gt (parseInt (elemAt flight 5)) (firstClassSeatsAvailable aircraftData) \<and>
     \<not> js_gt (totalSeatsBooked flight) (totalSeats aircraftData)"
    unfolding validate_found [OF ap ac cf] by (simp split: if_splits)
  with ap ac find_Some_set [OF ap] find_Some_set [OF ac] show ?thesis by blast
qed

theorem result_passed_all_gates_witness:
  "validateAndCalculateProfit validFlight airportsData aeroplanesData =
     Inr \<lparr>flightDetails = validFlight, income = Digits ''75636.00'',
          cost = Digits ''61716.48'', profit = Digits ''13919.52''\<rparr> \<and>
   (\<exists>airportData aircraftData.
      find (\<lambda>row. elemAt row 0 = elemAt validFlight 1) airportsData = Some airportData \<and>
      airportData \<in> set airportsData \<and> elemAt airportData 0 = elemAt validFlight 1 \<and>
      find (\<lambda>row. elemAt row 0 = elemAt validFlight 2) aeroplanesData = Some aircraftData \<and>
      aircraftData \<in> set aeroplanesData \<and> elemAt aircraftData 0 = elemAt validFlight 2 \<and>
      \<not> js_gt (distance validFlight airportData) (maxRange aircraftData) \<and>
      \<not> js_gt (parseInt (elemAt validFlight 3)) (economySeatsAvailable aircraftData) \<and>
      \<not> js_gt (parseInt (elemAt validFlight 4)) (businessSeatsAvailable aircraftData) \<and>
      \<not> js_gt (parseInt (elemAt validFlight 5)) (firstClassSeatsAvailable aircraftData) \<and>
      \<not> js_gt (totalSeatsBooked validFlight) (totalSeats aircraftData))"
  using valid_flight_result result_passed_all_gates [OF valid_flight_result] by (rule conjI)

text \<open>
  Claim C5. On success the profit is the income minus the cost, both taken at full
  precision: the subtraction is the program's \<^verbatim>\<open>-\<close> on the two unrounded doubles, and
  rounding to two decimals happens only in the three calls of \<^verbatim>\<open>toFixed(2)\<close> that format
  income, cost and profit for the result, each on its own.
\<close>

theorem profit_is_income_minus_cost:
  assumes "validateAndCalculateProfit flight airports aeroplanes = Inr res"
  shows "\<exists>airportData aircraftData costFigure.
           find (\<lambda>row. elemAt row 0 = elemAt flight 1) airports = Some airportData \<and>
           find (\<lambda>row. elemAt row 0 = elemAt flight 2) aeroplanes = Some aircraftData \<and>
           elemAt aircraftData 1 = Some costFigure \<and>
           income res = toFixed2 (totalIncome flight) \<and>
           cost res = toFixed2 (totalCost costFigure flight airportData) \<and>
           profit res = toFixed2 (js_sub (totalIncome flight)
                                    (totalCost costFigure flight airportData))"
proof -
  from assms obtain airportData aircraftData costFigure where
    ap: "find (\<lambda>row. elemAt row 0 = elemAt flight 1) airports = Some airportData" and
    ac: "find (\<lambda>row. elemAt row 0 = elemAt flight 2) aeroplanes = Some aircraftData" and
    cf: "elemAt aircraftData 1 = Some costFigure"
    by (rule validate_Inr_cases)
  from assms have
    "income res = toFixed2 (totalIncome flight) \<and>
     cost res = toFixed2 (totalCost costFigure flight airportData) \<and>
     profit res = toFixed2 (js_sub (totalIncome flight)
                              (totalCost costFigure flight airportData))"
    unfolding validate_found [OF ap ac cf] by (auto split: if_splits)
  with ap ac cf show ?thesis by blast
qed

theorem profit_is_income_minus_cost_witness:
  "validateAndCalculateProfit validFlight airportsData aeroplanesData =
     Inr \<lparr>flightDetails = validFlight, income = Digits ''75636.00'',
          cost = Digits ''61716.48'', profit = Digits ''13919.52''\<rparr> \<and>
   Digits ''75636.00'' = toFixed2 (totalIncome validFlight) \<and>
   Digits ''61716.48'' = toFixed2 (totalCost (CHR 0xA3 # ''7'') validFlight jfk) \<and>
   Digits ''13919.52'' = toFixed2 (js_sub (totalIncome validFlight)
                                     (totalCost (CHR 0xA3 # ''7'') validFlight jfk))"
proof -
  from profit_is_income_minus_cost [OF valid_flight_result]
  obtain airportData aircraftData costFigure where
    ap: "find (\<lambda>row. elemAt row 0 = elemAt validFlight 1) airportsData = Some airportData" and
    ac: "find (\<lambda>row. elemAt row 0 = elemAt validFlight 2) aeroplanesData = Some aircraftData" and
    cf: "elemAt aircraftData 1 = Some costFigure" and
    formatted:
      "Digits ''75636.00'' = toFixed2 (totalIncome validFlight)"
      "Digits ''61716.48'' = toFixed2 (totalCost costFigure validFlight airportData)"
      "Digits ''13919.52'' = toFixed2 (js_sub (totalIncome validFlight)
                                        (totalCost costFigure validFlight airportData))"
    by auto
  from ap have "airportData = jfk"
    by (simp only: valid_lookups option.inject)
  moreover from ac have "aircraftData = largeNarrowBody"
    by (simp only: valid_lookups option.inject)
  moreover from this cf have "costFigure = CHR 0xA3 # ''7''"
    by (simp only: large_eval option.inject)
  ultimately show ?thesis
    using valid_flight_result formatted by blast
qed

text \<open>
  Claim C6, as stated, fails: ``for every request, raising the booked seats of one class
  past that class's capacity, the other two held fixed and the total within overall
  capacity, fails with that class's error''. Take a request whose economy count is already
  above capacity (181 of 180) and raise business from 20 to 21 of 20, the total 202 staying
  within 204: the economy gate comes first and its error is the one thrown.
\<close>

theorem raised_class_not_reported_counterexample:
  "\<not> js_gt (parseInt (elemAt economyOverFlight 4)) (businessSeatsAvailable largeNarrowBody) \<and>
   js_gt (parseInt (elemAt (economyOverFlight[4 := ''21'']) 4))
     (businessSeatsAvailable largeNarrowBody) \<and>
   \<not> js_gt (totalSeatsBooked (economyOverFlight[4 := ''21''])) (totalSeats largeNarrowBody) \<and>
   validateAndCalculateProfit (economyOverFlight[4 := ''21'']) airportsData aeroplanesData
     = Inl (TooManyEconomy (Some ''181'') (Fin 180)) \<and>
   validateAndCalculateProfit (economyOverFlight[4 := ''21'']) airportsData aeroplanesData
     \<noteq> Inl (TooManyBusiness (Some ''21'') (Fin 20))"
proof -
  have "validateAndCalculateProfit (economyOverFlight[4 := ''21'']) airportsData aeroplanesData
          = Inl (TooManyEconomy (elemAt (economyOverFlight[4 := ''21'']) 3)
                   (economySeatsAvailable largeNarrowBody))"
    unfolding validate_found [OF raised_business_gates(1,2) large_eval(1)]
    using raised_business_gates(3,4,5) by simp
  then have "validateAndCalculateProfit (economyOverFlight[4 := ''21'']) airportsData
               aeroplanesData
          = Inl (TooManyEconomy (Some ''181'') (Fin 180))"
    by (simp only: raised_business_gates(8) large_eval(3))
  then show ?thesis
    using raised_business_gates(4,6,7) by simp
qed

text \<open>
  Claim C6, amended. For every request that evaluates successfully, raising the booked
  seats of any one class past that class's capacity, every other field held fixed and the
  total booked still within overall capacity, makes the evaluation fail with that class's
  overbooking error.
\<close>

theorem class_overbooking_after_valid_request:
  assumes "validateAndCalculateProfit flight airports aeroplanes = Inr res"
      and "find (\<lambda>row. elemAt row 0 = elemAt flight 2) aeroplanes = Some aircraftData"
  shows
    "(\<forall>flight'.
        (\<forall>k. k \<noteq> 3 \<longrightarrow> elemAt flight' k = elemAt flight k) \<and>
        js_gt (parseInt (elemAt flight' 3)) (economySeatsAvailable aircraftData) \<and>
        \<not> js_gt (totalSeatsBooked flight') (totalSeats aircraftData) \<longrightarrow>
        validateAndCalculateProfit flight' airports aeroplanes
          = Inl (TooManyEconomy (elemAt flight' 3) (economySeatsAvailable aircraftData))) \<and>
     (\<forall>flight'.
        (\<forall>k. k \<noteq> 4 \<longrightarrow> elemAt flight' k = elemAt flight k) \<and>
        js_gt (parseInt (elemAt flight' 4)) (businessSeatsAvailable aircraftData) \<and>
        \<not> js_gt (totalSeatsBooked flight') (totalSeats aircraftData) \<longrightarrow>
        validateAndCalculateProfit flight' airports aeroplanes
          = Inl (TooManyBusiness (elemAt flight' 4) (businessSeatsAvailable aircraftData))) \<and>
     (\<forall>flight'.
        (\<forall>k. k \<noteq> 5 \<longrightarrow> elemAt flight' k = elemAt flight k) \<and>
        js_gt (parseInt (elemAt flight' 5)) (firstClassSeatsAvailable aircraftData) \<and>
        \<not> js_gt (totalSeatsBooked flight') (totalSeats aircraftData) \<longrightarrow>
        validateAndCalculateProfit flight' airports aeroplanes
          = Inl (TooManyFirst (elemAt flight' 5) (firstClassSeatsAvailable aircraftData)))"
proof (intro conjI allI impI)
  fix flight'
  assume a: "(\<forall>k. k \<noteq> 3 \<longrightarrow> elemAt flight' k = elemAt flight k) \<and>
        js_gt (parseInt (elemAt flight' 3)) (economySeatsAvailable aircraftData) \<and>
        \<not> js_gt (totalSeatsBooked flight') (totalSeats aircraftData)"
  then have keep: "elemAt flight' 0 = elemAt flight 0" "elemAt flight' 1 = elemAt flight 1"
    "elemAt flight' 2 = elemAt flight 2"
    by simp_all
  obtain airportData costFigure where f:
    "find (\<lambda>row. elemAt row 0 = elemAt flight' 1) airports = Some airportData"
    "find (\<lambda>row. elemAt row 0 = elemAt flight' 2) aeroplanes = Some aircraftData"
    "elemAt aircraftData 1 = Some costFigure"
    and g: "\<not> js_gt (distance flight' airportData) (maxRange aircraftData)"
    by (rule validate_other_seats [OF assms keep])
  show "validateAndCalculateProfit flight' airports aeroplanes
          = Inl (TooManyEconomy (elemAt flight' 3) (economySeatsAvailable aircraftData))"
    unfolding validate_found [OF f] using a g by simp
next
  fix flight'
  assume a: "(\<forall>k. k \<noteq> 4 \<longrightarrow> elemAt flight' k = elemAt flight k) \<and>
        js_gt (parseInt (elemAt flight' 4)) (businessSeatsAvailable aircraftData) \<and>
        \<not> js_gt (totalSeatsBooked flight') (totalSeats aircraftData)"
  then have keep: "elemAt flight' 0 = elemAt flight 0" "elemAt flight' 1 = elemAt flight 1"
    "elemAt flight' 2 = elemAt flight 2"
    and others: "elemAt flight' 3 = elemAt flight 3"
    by simp_all
  obtain airportData costFigure where f:
    "find (\<lambda>row. elemAt row 0 = elemAt flight' 1) airports = Some airportData"
    "find (\<lambda>row. elemAt row 0 = elemAt flight' 2) aeroplanes = Some aircraftData"
    "elemAt aircraftData 1 = Some costFigure"
    and g: "\<not> js_gt (distance flight' airportData) (maxRange aircraftData)"
      "\<not> js_gt (parseInt (elemAt flight 3)) (economySeatsAvailable aircraftData)"
    by (rule validate_other_seats [OF assms keep])
  show "validateAndCalculateProfit flight' airports aeroplanes
          = Inl (TooManyBusiness (elemAt flight' 4) (businessSeatsAvailable aircraftData))"
    unfolding validate_found [OF f] using a g by (simp add: others)
next
  fix flight'
  assume a: "(\<forall>k. k \<noteq> 5 \<longrightarrow> elemAt flight' k = elemAt flight k) \<and>
        js_gt (parseInt (elemAt flight' 5)) (firstClassSeatsAvailable aircraftData) \<and>
        \<not> js_gt (totalSeatsBooked flight') (totalSeats aircraftData)"
  then have keep: "elemAt flight' 0 = elemAt flight 0" "elemAt flight' 1 = elemAt flight 1"
    "elemAt flight' 2 = elemAt flight 2"
    and others: "elemAt flight' 3 = elemAt flight 3" "elemAt flight' 4 = elemAt flight 4"
    by simp_all
  obtain airportData costFigure where f:
    "find (\<lambda>row. elemAt row 0 = elemAt flight' 1) airports = Some airportData"
    "find (\<lambda>row. elemAt row 0 = elemAt flight' 2) aeroplanes = Some aircraftData"
    "elemAt aircraftData 1 = Some costFigure"
    and g: "\<not> js_gt (distance flight' airportData) (maxRange aircraftData)"
      "\<not> js_gt (parseInt (elemAt flight 3)) (economySeatsAvailable aircraftData)"
      "\<not> js_gt (parseInt (elemAt flight 4)) (businessSeatsAvailable aircraftData)"
    by (rule validate_other_seats [OF assms keep])
  show "validateAndCalculateProfit flight' airports aeroplanes
          = Inl (TooManyFirst (elemAt flight' 5) (firstClassSeatsAvailable aircraftData))"
    unfolding validate_found [OF f] using a g by (simp add: others)
qed

text \<open>
  The request of the tests with one class raised at a time: economy to 181 of 180, business
  to 21 of 20, first class to 5 of 4, the total staying within 204.
\<close>

theorem class_overbooking_after_valid_request_witness:
  "validateAndCalculateProfit validFlight airportsData aeroplanesData =
     Inr \<lparr>flightDetails = validFlight, income = Digits ''75636.00'',
          cost = Digits ''61716.48'', profit = Digits ''13919.52''\<rparr> \<and>
   js_gt (parseInt (Some ''181'')) (economySeatsAvailable largeNarrowBody) \<and>
   \<not> js_gt (totalSeatsBooked (validFlight[3 := ''181''])) (totalSeats largeNarrowBody) \<and>
   validateAndCalculateProfit (validFlight[3 := ''181'']) airportsData aeroplanesData
     = Inl (TooManyEconomy (Some ''181'') (economySeatsAvailable largeNarrowBody)) \<and>
   js_gt (parseInt (Some ''21'')) (businessSeatsAvailable largeNarrowBody) \<and>
   \<not> js_gt (totalSeatsBooked (validFlight[4 := ''21''])) (totalSeats largeNarrowBody) \<and>
   validateAndCalculateProfit (validFlight[4 := ''21'']) airportsData aeroplanesData
     = Inl (TooManyBusiness (Some ''21'') (businessSeatsAvailable largeNarrowBody)) \<and>
   js_gt (parseInt (Some ''5'')) (firstClassSeatsAvailable largeNarrowBody) \<and>
   \<not> js_gt (totalSeatsBooked (validFlight[5 := ''5''])) (totalSeats largeNarrowBody) \<and>
   validateAndCalculateProfit (validFlight[5 := ''5'']) airportsData aeroplanesData
     = Inl (TooManyFirst (Some ''5'') (firstClassSeatsAvailable largeNarrowBody))"
proof -
  note t = class_overbooking_after_valid_request [OF valid_flight_result valid_lookups(2)]
  note e = t [THEN conjunct1, rule_format, OF raised_valid_gates(1)]
  note b = t [THEN conjunct2, THEN conjunct1, rule_format, OF raised_valid_gates(2)]
  note f = t [THEN conjunct2, THEN conjunct2, rule_format, OF raised_valid_gates(3)]
  show ?thesis
    using valid_flight_result raised_valid_gates e b f
    unfolding raised_valid_fields by blast
qed

text \<open>
  Claim C7. \<^verbatim>\<open>readCsv\<close> on a generated table file, a header line followed by N well-formed
  data rows with or without \<^verbatim>\<open>#\<close> comments, returns exactly N rows, each with the field
  count of the row it comes from; the fields are the strings of the file, untouched but for
  the white space that trimming the line takes from the two ends. On any content, the first
  line is dropped whatever it holds, and so is every line that is empty once its comment is
  cut and it is trimmed; the lines left are split on the delimiter.
\<close>

theorem readCsv_round_trip:
  assumes "readFileSync filename = Inr (generatedFile delimiter header rows)"
      and "wellFormedDelimiter delimiter"
      and "CHR 0x0A \<notin> set header"
      and "\<forall>row \<in> set rows. wellFormedRow delimiter row"
  shows "\<exists>table.
           readCsv readFileSync filename delimiter = Inr table \<and>
           length table = length rows \<and>
           map length table = map (\<lambda>row. length (fst row)) rows \<and>
           table = map (\<lambda>row. trimEnds (fst row)) rows \<and>
           readCsv (\<lambda>name. Inr content) filename delimiter =
             Inr (map (split delimiter)
                    (filter (\<lambda>row. row \<noteq> [])
                       (map strippedLine (drop 1 (split [CHR 0x0A] content)))))"
proof -
  let ?lines = "map (generatedLine delimiter) rows"
  have "\<forall>f \<in> set (header # ?lines). set f \<inter> set [CHR 0x0A] = {}"
    using assms(3,4) generated_row(1) [OF assms(2)] by auto
  then have "split [CHR 0x0A] (join [CHR 0x0A] (header # ?lines)) = header # ?lines"
    by (intro split_join) simp_all
  then have "readCsv readFileSync filename delimiter =
               Inr (map (split delimiter)
                      (filter (\<lambda>row. row \<noteq> []) (map strippedLine ?lines)))"
    by (simp add: readCsv_def assms(1) generatedFile_def readCsvLoop_eq Let_def)
  then have "readCsv readFileSync filename delimiter = Inr (map (\<lambda>row. trimEnds (fst row)) rows)"
    by (simp only: generated_rows [OF assms(2,4)])
  then show ?thesis
    by (simp add: readCsv_rows comp_def)
qed

text \<open>
  The airport table of the tests as a generated file, with a comment on its first row and
  white space at the two ends of its second.
\<close>

theorem readCsv_round_trip_witness:
  "wellFormedDelimiter '','' \<and>
   CHR 0x0A \<notin> set csvHeader \<and>
   wellFormedRow '','' (csvRows ! 0) \<and>
   wellFormedRow '','' (csvRows ! 1) \<and>
   readCsv (\<lambda>name. Inr (generatedFile '','' csvHeader csvRows)) ''airports.csv'' '',''
     = Inr airportsData"
proof -
  have d: "wellFormedDelimiter '',''"
    by (simp add: wellFormedDelimiter_def isWhiteSpace_def)
  have h: "CHR 0x0A \<notin> set csvHeader"
    by (simp add: csvHeader_def)
  have r: "wellFormedRow '','' (csvRows ! 0)" "wellFormedRow '','' (csvRows ! 1)"
    by (simp_all add: csvRows_def wellFormedRow_def isWhiteSpace_def)
  then have rows: "\<forall>row \<in> set csvRows. wellFormedRow '','' row"
    by (simp add: csvRows_def)
  have "map (\<lambda>row. trimEnds (fst row)) csvRows = airportsData"
    by (simp add: csvRows_def airportsData_def trimEnds_def trimFirst_def isWhiteSpace_def)
  with d h rows
    readCsv_round_trip [of "\<lambda>name. Inr (generatedFile '','' csvHeader csvRows)"
      "''airports.csv''" "'',''" csvHeader csvRows]
  have "readCsv (\<lambda>name. Inr (generatedFile '','' csvHeader csvRows)) ''airports.csv'' '',''
          = Inr airportsData"
    by auto
  with d h r show ?thesis by blast
qed

text \<open>
  Claim C8. When the destination is found, the distance the evaluation uses is
  \<^verbatim>\<open>parseFloat\<close> of the airport row's third column (index 2) when the origin is
  \<^verbatim>\<open>MAN\<close>, and of its fourth column (index 3) for every other origin. Nothing else
  depends on the origin: two requests that differ in the origin only, looked up in any two
  airport tables, have the same outcome (apart from the echo of the request) whenever the
  selected distances agree, and so have two requests on the same tables whose origins are
  both \<^verbatim>\<open>MAN\<close> or both not.
\<close>

theorem distance_column_by_origin:
  "(elemAt flight 0 = Some ''MAN'' \<longrightarrow>
      distance flight airportData = parseFloat (elemAt airportData 2)) \<and>
   (elemAt flight 0 \<noteq> Some ''MAN'' \<longrightarrow>
      distance flight airportData = parseFloat (elemAt airportData 3)) \<and>
   (\<forall>origin' airports' airportData'.
      find (\<lambda>row. elemAt row 0 = elemAt (origin # rest) 1) airports = Some airportData \<and>
      find (\<lambda>row. elemAt row 0 = elemAt (origin' # rest) 1) airports' = Some airportData' \<and>
      distance (origin' # rest) airportData' = distance (origin # rest) airportData \<longrightarrow>
      figures (validateAndCalculateProfit (origin' # rest) airports' aeroplanes)
        = figures (validateAndCalculateProfit (origin # rest) airports aeroplanes)) \<and>
   (\<forall>origin'. (origin = ''MAN'' \<longleftrightarrow> origin' = ''MAN'') \<longrightarrow>
      figures (validateAndCalculateProfit (origin' # rest) airports aeroplanes)
        = figures (validateAndCalculateProfit (origin # rest) airports aeroplanes))"
proof (intro conjI allI impI)
  assume "elemAt flight 0 = Some ''MAN''"
  then show "distance flight airportData = parseFloat (elemAt airportData 2)"
    by (simp add: distance_def)
next
  assume "elemAt flight 0 \<noteq> Some ''MAN''"
  then show "distance flight airportData = parseFloat (elemAt airportData 3)"
    by (simp add: distance_def)
next
  fix origin' airports' airportData'
  assume a: "find (\<lambda>row. elemAt row 0 = elemAt (origin # rest) 1) airports = Some airportData \<and>
      find (\<lambda>row. elemAt row 0 = elemAt (origin' # rest) 1) airports' = Some airportData' \<and>
      distance (origin' # rest) airportData' = distance (origin # rest) airportData"
  have "\<And>k. 1 \<le> k \<Longrightarrow> elemAt (origin' # rest) k = elemAt (origin # rest) k"
    by (simp add: elemAt_Cons_pos)
  from validate_same_distance [OF this] a
  show "figures (validateAndCalculateProfit (origin' # rest) airports' aeroplanes)
        = figures (validateAndCalculateProfit (origin # rest) airports aeroplanes)"
    by blast
next
  fix origin'
  assume o: "(origin = ''MAN'') = (origin' = ''MAN'')"
  have fields: "\<And>k. 1 \<le> k \<Longrightarrow> elemAt (origin' # rest) k = elemAt (origin # rest) k"
    by (simp add: elemAt_Cons_pos)
  have key: "elemAt (origin' # rest) 1 = elemAt (origin # rest) 1"
    by (simp add: fields)
  show "figures (validateAndCalculateProfit (origin' # rest) airports aeroplanes)
        = figures (validateAndCalculateProfit (origin # rest) airports aeroplanes)"
  proof (cases "find (\<lambda>row. elemAt row 0 = elemAt (origin # rest) 1) airports")
    case None
    then have "find (\<lambda>row. elemAt row 0 = elemAt (origin' # rest) 1) airports = None"
      by (simp only: key)
    with None show ?thesis by (simp only: validate_no_airport key)
  next
    case (Some ap)
    then have ap': "find (\<lambda>row. elemAt row 0 = elemAt (origin' # rest) 1) airports = Some ap"
      by (simp only: key)
    have "distance (origin' # rest) ap = distance (origin # rest) ap"
      using o by (simp add: distance_def elemAt_def)
    from validate_same_distance [OF fields Some ap' this] show ?thesis .
  qed
qed


theorem distance_column_by_origin_witness:
  "elemAt validFlight 0 = Some ''MAN'' \<and>
   distance validFlight jfk = parseFloat (elemAt jfk 2) \<and>
   elemAt economyOverFlight 0 \<noteq> Some ''MAN'' \<and>
   distance economyOverFlight ory = parseFloat (elemAt ory 3) \<and>
   distance (''LGW'' # tl validFlight) [''JFK'', ''swapped'', ''5583'', ''5376'']
     = distance (''MAN'' # tl validFlight) jfk \<and>
   figures (validateAndCalculateProfit (''LGW'' # tl validFlight)
              [[''JFK'', ''swapped'', ''5583'', ''5376'']] aeroplanesData)
     = figures (validateAndCalculateProfit (''MAN'' # tl validFlight) airportsData
                  aeroplanesData) \<and>
   (''LGW'' = ''MAN'') = (''LHR'' = ''MAN'') \<and>
   figures (validateAndCalculateProfit (''LHR'' # tl validFlight) airportsData aeroplanesData)
     = figures (validateAndCalculateProfit (''LGW'' # tl validFlight) airportsData
                  aeroplanesData)"
proof -
  have h1: "elemAt validFlight 0 = Some ''MAN''"
    by (rule valid_fields)
  have h2: "elemAt economyOverFlight 0 \<noteq> Some ''MAN''"
    by (simp add: economyOverFlight_def elemAt_def)
  have h3: "find (\<lambda>row. elemAt row 0 = elemAt (''MAN'' # tl validFlight) 1) airportsData
              = Some jfk \<and>
            find (\<lambda>row. elemAt row 0 = elemAt (''LGW'' # tl validFlight) 1)
              [[''JFK'', ''swapped'', ''5583'', ''5376'']]
              = Some [''JFK'', ''swapped'', ''5583'', ''5376''] \<and>
            distance (''LGW'' # tl validFlight) [''JFK'', ''swapped'', ''5583'', ''5376'']
              = distance (''MAN'' # tl validFlight) jfk"
    by (simp add: validFlight_def table_eval distance_def)
  have h4: "(''LGW'' = ''MAN'') = (''LHR'' = ''MAN'')"
    by simp
  show ?thesis
    using h1 h2 h3 h4
      distance_column_by_origin [THEN conjunct1, rule_format, OF h1, of jfk]
      distance_column_by_origin [THEN conjunct2, THEN conjunct1, rule_format, OF h2, of ory]
      distance_column_by_origin [THEN conjunct2, THEN conjunct2, THEN conjunct1, rule_format,
        OF h3, of aeroplanesData]
      distance_column_by_origin [THEN conjunct2, THEN conjunct2, THEN conjunct2, rule_format,
        OF h4, of "tl validFlight" airportsData aeroplanesData]
    by blast
qed

text \<open>
  Claim C9. When a table has several rows whose first field is the code or type looked up,
  the evaluation rests on the first of them in table order: the outcome is the one of the
  table cut down to that row, and rows added after a row that matches, with the same key
  or any other, never change the outcome.
\<close>

theorem first_matching_row_decides:
  "(\<forall>pre row post.
      find (\<lambda>row. elemAt row 0 = elemAt flight 1) pre = None \<and>
      elemAt row 0 = elemAt flight 1 \<longrightarrow>
      validateAndCalculateProfit flight (pre @ row # post) aeroplanes
        = validateAndCalculateProfit flight [row] aeroplanes) \<and>
   (\<forall>pre row post.
      find (\<lambda>row. elemAt row 0 = elemAt flight 2) pre = None \<and>
      elemAt row 0 = elemAt flight 2 \<longrightarrow>
      validateAndCalculateProfit flight airports (pre @ row # post)
        = validateAndCalculateProfit flight airports [row]) \<and>
   (\<forall>more. find (\<lambda>row. elemAt row 0 = elemAt flight 1) airports \<noteq> None \<longrightarrow>
      validateAndCalculateProfit flight (airports @ more) aeroplanes
        = validateAndCalculateProfit flight airports aeroplanes) \<and>
   (\<forall>more. find (\<lambda>row. elemAt row 0 = elemAt flight 2) aeroplanes \<noteq> None \<longrightarrow>
      validateAndCalculateProfit flight airports (aeroplanes @ more)
        = validateAndCalculateProfit flight airports aeroplanes)"
proof (intro conjI allI impI)
  fix pre row post
  assume a: "find (\<lambda>row. elemAt row 0 = elemAt flight 1) pre = None \<and>
             elemAt row 0 = elemAt flight 1"
  then have "find (\<lambda>row. elemAt row 0 = elemAt flight 1) (pre @ row # post) = Some row"
    by (intro find_first_match) auto
  moreover from a
  have "find (\<lambda>row. elemAt row 0 = elemAt flight 1) [row] = Some row" by simp
  ultimately show "validateAndCalculateProfit flight (pre @ row # post) aeroplanes
        = validateAndCalculateProfit flight [row] aeroplanes"
    by (intro validate_cong_find) simp_all
next
  fix pre row post
  assume a: "find (\<lambda>row. elemAt row 0 = elemAt flight 2) pre = None \<and>
             elemAt row 0 = elemAt flight 2"
  then have "find (\<lambda>row. elemAt row 0 = elemAt flight 2) (pre @ row # post) = Some row"
    by (intro find_first_match) auto
  moreover from a
  have "find (\<lambda>row. elemAt row 0 = elemAt flight 2) [row] = Some row" by simp
  ultimately show "validateAndCalculateProfit flight airports (pre @ row # post)
        = validateAndCalculateProfit flight airports [row]"
    by (intro validate_cong_find) simp_all
next
  fix more
  assume "find (\<lambda>row. elemAt row 0 = elemAt flight 1) airports \<noteq> None"
  then obtain r where "find (\<lambda>row. elemAt row 0 = elemAt flight 1) airports = Some r" by auto
  then show "validateAndCalculateProfit flight (airports @ more) aeroplanes
        = validateAndCalculateProfit flight airports aeroplanes"
    by (intro validate_cong_find) (simp_all add: find_append_Some)
next
  fix more
  assume "find (\<lambda>row. elemAt row 0 = elemAt flight 2) aeroplanes \<noteq> None"
  then obtain r where "find (\<lambda>row. elemAt row 0 = elemAt flight 2) aeroplanes = Some r" by auto
  then show "validateAndCalculateProfit flight airports (aeroplanes @ more)
        = validateAndCalculateProfit flight airports aeroplanes"
    by (intro validate_cong_find) (simp_all add: find_append_Some)
qed

text \<open>
  The tables of the tests with a second JFK row and a second \<^verbatim>\<open>Large narrow body\<close> row of
  other figures: the request of the tests is evaluated on the first ones.
\<close>

theorem first_matching_row_decides_witness:
  "find (\<lambda>row. elemAt row 0 = elemAt validFlight 1) [ory] = None \<and>
   elemAt jfk 0 = elemAt validFlight 1 \<and>
   elemAt [''JFK'', ''Another JFK'', ''9999'', ''9999''] 0 = elemAt validFlight 1 \<and>
   validateAndCalculateProfit validFlight
       ([ory] @ jfk # [[''JFK'', ''Another JFK'', ''9999'', ''9999'']]) aeroplanesData
     = validateAndCalculateProfit validFlight [jfk] aeroplanesData \<and>
   find (\<lambda>row. elemAt row 0 = elemAt validFlight 2) [mediumNarrowBody] = None \<and>
   elemAt largeNarrowBody 0 = elemAt validFlight 2 \<and>
   validateAndCalculateProfit validFlight airportsData
       ([mediumNarrowBody] @ largeNarrowBody
          # [[''Large narrow body'', CHR 0xA3 # ''9'', ''100'', ''1'', ''1'', ''1'']])
     = validateAndCalculateProfit validFlight airportsData [largeNarrowBody] \<and>
   find (\<lambda>row. elemAt row 0 = elemAt validFlight 1) airportsData \<noteq> None \<and>
   validateAndCalculateProfit validFlight
       (airportsData @ [[''JFK'', ''Another JFK'', ''9999'', ''9999'']]) aeroplanesData
     = validateAndCalculateProfit validFlight airportsData aeroplanesData \<and>
   find (\<lambda>row. elemAt row 0 = elemAt validFlight 2) aeroplanesData \<noteq> None \<and>
   validateAndCalculateProfit validFlight airportsData
       (aeroplanesData @ [[''Large narrow body'', CHR 0xA3 # ''9'', ''100'', ''1'', ''1'', ''1'']])
     = validateAndCalculateProfit validFlight airportsData aeroplanesData"
proof -
  note t = first_matching_row_decides [of validFlight aeroplanesData airportsData]
  have h1: "find (\<lambda>row. elemAt row 0 = elemAt validFlight 1) [ory] = None \<and>
            elemAt jfk 0 = elemAt validFlight 1"
    by (simp only: valid_fields) (simp add: table_eval)
  have h1': "elemAt [''JFK'', ''Another JFK'', ''9999'', ''9999''] 0 = elemAt validFlight 1"
    by (simp only: valid_fields) (simp add: elemAt_def)
  have h2: "find (\<lambda>row. elemAt row 0 = elemAt validFlight 2) [mediumNarrowBody] = None \<and>
            elemAt largeNarrowBody 0 = elemAt validFlight 2"
    by (simp only: valid_fields) (simp add: table_eval)
  have h3: "find (\<lambda>row. elemAt row 0 = elemAt validFlight 1) airportsData \<noteq> None"
    by (simp only: valid_lookups) simp
  have h4: "find (\<lambda>row. elemAt row 0 = elemAt validFlight 2) aeroplanesData \<noteq> None"
    by (simp only: valid_lookups) simp
  show ?thesis
    using h1 h1' h2 h3 h4
      t [THEN conjunct1, rule_format, OF h1]
      t [THEN conjunct2, THEN conjunct1, rule_format, OF h2]
      t [THEN conjunct2, THEN conjunct2, THEN conjunct1, rule_format, OF h3]
      t [THEN conjunct2, THEN conjunct2, THEN conjunct2, rule_format, OF h4]
    by blast
qed

text \<open>
  Claim C10. There is no lower bound on booked seats. When the destination and the
  aircraft are found, the range gate is reached (the aircraft row has its cost figure) and
  passes, and no class's parsed count compares greater than that class's capacity, the
  evaluation returns a result, negative counts included: the total gate cannot fail then,
  since the addition of doubles preserves order.
\<close>

theorem no_lower_bound_on_bookings:
  assumes "find (\<lambda>row. elemAt row 0 = elemAt flight 1) airports = Some airportData"
      and "find (\<lambda>row. elemAt row 0 = elemAt flight 2) aeroplanes = Some aircraftData"
      and "elemAt aircraftData 1 = Some costFigure"
      and "\<not> js_gt (distance flight airportData) (maxRange aircraftData)"
      and "\<not> js_gt (parseInt (elemAt flight 3)) (economySeatsAvailable aircraftData)"
      and "\<not> js_gt (parseInt (elemAt flight 4)) (businessSeatsAvailable aircraftData)"
      and "\<not> js_gt (parseInt (elemAt flight 5)) (firstClassSeatsAvailable aircraftData)"
  shows "validateAndCalculateProfit flight airports aeroplanes =
           Inr \<lparr>flightDetails = flight,
                income = toFixed2 (totalIncome flight),
                cost = toFixed2 (totalCost costFigure flight airportData),
                profit = toFixed2 (js_sub (totalIncome flight)
                                     (totalCost costFigure flight airportData))\<rparr>"
proof -
  have "\<not> js_gt (totalSeatsBooked flight) (totalSeats aircraftData)"
    unfolding totalSeatsBooked_def totalSeats_def
    by (intro js_add_mono assms)
  with assms(4-7) show ?thesis
    unfolding validate_found [OF assms(1-3)] by simp
qed

text \<open>The request of the tests with \<^verbatim>\<open>-5\<close> economy seats is accepted.\<close>

theorem no_lower_bound_on_bookings_witness:
  "parseInt (elemAt negativeFlight 3) = Fin (- 5) \<and>
   \<not> js_gt (distance negativeFlight jfk) (maxRange largeNarrowBody) \<and>
   \<not> js_gt (parseInt (elemAt negativeFlight 3)) (economySeatsAvailable largeNarrowBody) \<and>
   \<not> js_gt (parseInt (elemAt negativeFlight 4)) (businessSeatsAvailable largeNarrowBody) \<and>
   \<not> js_gt (parseInt (elemAt negativeFlight 5)) (firstClassSeatsAvailable largeNarrowBody) \<and>
   validateAndCalculateProfit negativeFlight airportsData aeroplanesData =
     Inr \<lparr>flightDetails = negativeFlight,
          income = toFixed2 (totalIncome negativeFlight),
          cost = toFixed2 (totalCost (CHR 0xA3 # ''7'') negativeFlight jfk),
          profit = toFixed2 (js_sub (totalIncome negativeFlight)
                               (totalCost (CHR 0xA3 # ''7'') negativeFlight jfk))\<rparr>"
  using negative_gates(3-7)
    no_lower_bound_on_bookings [OF negative_gates(1,2) large_eval(1) negative_gates(3,5,6,7)]
  by blast

end
